theory Spec2Isabelle
  imports Complex_Main
begin

section \<open>JavaScript values\<close>

text \<open>
  Strings. A JavaScript string is a sequence of UTF-16 code units. The model uses
  \<^typ>\<open>string\<close>, whose characters are the 256 code units U+0000 .. U+00FF (Latin-1):
  \<open>length\<close> counts code units as \<open>.length\<close> does, and on this range
  whitespace (\<open>\s\<close>, \<open>trim\<close>) and \<open>toLowerCase\<close> are exactly the ones below.
  Strings holding a code unit above U+00FF are outside the model.
\<close>

definition isWhitespace :: "char \<Rightarrow> bool" where
  \<comment> \<open>the class \<open>\s\<close>, which is also what \<open>trim\<close> and \<open>parseInt\<close> strip:
      TAB, LF, VT, FF, CR, SPACE, NO-BREAK SPACE\<close>
  "isWhitespace c =
     (c = CHR 0x09 \<or> c = CHR 0x0A \<or> c = CHR 0x0B \<or> c = CHR 0x0C \<or> c = CHR 0x0D \<or>
      c = CHR 0x20 \<or> c = CHR 0xA0)"

definition toLowerChar :: "char \<Rightarrow> char" where
  \<comment> \<open>A-Z, and the Latin-1 capitals U+00C0 .. U+00DE without the multiplication sign U+00D7\<close>
  "toLowerChar c =
     (let n = (of_char c :: nat)
      in if (65 \<le> n \<and> n \<le> 90) \<or> (192 \<le> n \<and> n \<le> 222 \<and> n \<noteq> 215)
         then char_of (n + 32) else c)"

definition toLowerCase :: "string \<Rightarrow> string" where
  "toLowerCase s = map toLowerChar s"

definition trim :: "string \<Rightarrow> string" where
  "trim s = rev (dropWhile isWhitespace (rev (dropWhile isWhitespace s)))"

definition startsWith :: "string \<Rightarrow> string \<Rightarrow> bool" where
  "startsWith s p = (take (length p) s = p)"

definition endsWith :: "string \<Rightarrow> string \<Rightarrow> bool" where
  "endsWith s e = (length e \<le> length s \<and> drop (length s - length e) s = e)"

fun join :: "string \<Rightarrow> string list \<Rightarrow> string" where
  "join sep [] = []"
| "join sep [x] = x"
| "join sep (x # y # ys) = x @ sep @ join sep (y # ys)"

text \<open>
  Numbers. A JavaScript number is an IEEE double. The model keeps the three special
  values and takes the finite ones as rationals: the comparisons with the constants
  0, 1 and 10 and with string lengths, and the truncation made by \<open>substring\<close>, are
  then the ones of the doubles. \<open>-0\<close> is identified with \<open>0\<close> (they agree under
  \<open>===\<close>, \<open><\<close> and \<open>substring\<close>).
\<close>

datatype number = NaN | NegInf | Fin rat | PosInf

fun num_lt :: "number \<Rightarrow> number \<Rightarrow> bool" where
  \<comment> \<open>\<open>a < b\<close>; false as soon as one side is NaN\<close>
  "num_lt NaN b = False"
| "num_lt a NaN = False"
| "num_lt NegInf NegInf = False"
| "num_lt NegInf b = True"
| "num_lt (Fin x) (Fin y) = (x < y)"
| "num_lt (Fin x) PosInf = True"
| "num_lt (Fin x) NegInf = False"
| "num_lt PosInf b = False"

definition num_gt :: "number \<Rightarrow> number \<Rightarrow> bool" where
  \<comment> \<open>\<open>a > b\<close>\<close>
  "num_gt a b = num_lt b a"

definition num_truthy :: "number \<Rightarrow> bool" where
  \<comment> \<open>a number is falsy when it is 0 or NaN\<close>
  "num_truthy n = (n \<noteq> NaN \<and> n \<noteq> Fin 0)"

definition lengthOf :: "string \<Rightarrow> number" where
  \<comment> \<open>\<open>s.length\<close>\<close>
  "lengthOf s = Fin (of_nat (length s))"

fun substring0 :: "string \<Rightarrow> number \<Rightarrow> string" where
  \<comment> \<open>\<open>s.substring(0, e)\<close>: \<open>e\<close> is truncated to an integer (NaN to 0) and clamped
      into \<open>[0, s.length]\<close>\<close>
  "substring0 s NaN = []"
| "substring0 s NegInf = []"
| "substring0 s PosInf = s"
| "substring0 s (Fin q) = take (nat \<lfloor>q\<rfloor>) s"

definition substringTo :: "string \<Rightarrow> number option \<Rightarrow> string" where
  \<comment> \<open>\<open>s.substring(0, e)\<close> for an \<open>e\<close> that may be \<open>undefined\<close>, which means the end\<close>
  "substringTo s e = (case e of None \<Rightarrow> s | Some n \<Rightarrow> substring0 s n)"

section \<open>Utility functions\<close>

text \<open>
  A parameter with a default (\<open>maxLength = 10000\<close> of \<open>cleanText\<close>, \<open>maxLength = 500\<close>
  of \<open>getContentPreview\<close>, \<open>maxDomainsInQuery = 10\<close>) is an argument here: a call that
  omits it passes the default.
\<close>

subsection \<open>cleanText and getContentPreview\<close>

text \<open>\<open>.replace(/\s+/g, ' ')\<close>: every maximal run of whitespace becomes one space.\<close>

function collapseWhitespace :: "string \<Rightarrow> string" where
  "collapseWhitespace [] = []"
| "collapseWhitespace (c # cs) =
     (if isWhitespace c then CHR '' '' # collapseWhitespace (dropWhile isWhitespace cs)
      else c # collapseWhitespace cs)"
  by pat_completeness auto
termination
  by (relation "measure length") (auto simp: less_Suc_eq_le length_dropWhile_le)

text \<open>
  \<open>.replace(/\n\s*\n/g, '\n')\<close>. A match starts at a line feed; the greedy \<open>\s*\<close>
  takes the whole whitespace run after it and gives characters back until a line feed
  follows, so the match ends at the last line feed of that run. Without a line feed in the
  run there is no match at this position. The scan resumes after the match.
\<close>

definition afterLastNewline :: "string \<Rightarrow> string" where
  "afterLastNewline w = rev (takeWhile (\<lambda>x. x \<noteq> CHR 0x0A) (rev w))"

function collapseBlankLines :: "string \<Rightarrow> string" where
  "collapseBlankLines [] = []"
| "collapseBlankLines (c # cs) =
     (if c = CHR 0x0A \<and> CHR 0x0A \<in> set (takeWhile isWhitespace cs)
      then CHR 0x0A #
           collapseBlankLines (afterLastNewline (takeWhile isWhitespace cs) @ dropWhile isWhitespace cs)
      else c # collapseBlankLines cs)"
  by pat_completeness auto
termination
proof (relation "measure length", goal_cases)
  case 1
  show ?case by simp
next
  case (2 c cs)
  have "length (afterLastNewline (takeWhile isWhitespace cs)) \<le> length (takeWhile isWhitespace cs)"
    using length_takeWhile_le [of "\<lambda>x. x \<noteq> CHR 0x0A" "rev (takeWhile isWhitespace cs)"]
    by (simp add: afterLastNewline_def)
  moreover have "length (takeWhile isWhitespace cs) + length (dropWhile isWhitespace cs) = length cs"
    by (metis length_append takeWhile_dropWhile_id)
  ultimately show ?case by simp
next
  case (3 c cs)
  show ?case by simp
qed

definition cleanText :: "string \<Rightarrow> number \<Rightarrow> string" where
  "cleanText text maxLength =
     substring0 (trim (collapseBlankLines (collapseWhitespace text))) maxLength"

definition getContentPreview :: "string \<Rightarrow> number \<Rightarrow> string" where
  "getContentPreview text maxLength =
     (let cleaned = cleanText text maxLength
      in if lengthOf cleaned = maxLength then cleaned @ ''...'' else cleaned)"

subsection \<open>isPdfUrl\<close>

text \<open>
  \<open>new URL(url)\<close> is the platform's URL parser, not code of this repository. It is a
  parameter of the model: \<open>None\<close> when the constructor throws, the parsed URL otherwise.
\<close>

record URL =
  protocol :: string
  hostname :: string
  pathname :: string

type_synonym url_parser = "string \<Rightarrow> URL option"

definition isPdfUrl :: "url_parser \<Rightarrow> string \<Rightarrow> bool" where
  "isPdfUrl parseURL url =
     (case parseURL url of
        Some parsed \<Rightarrow> endsWith (toLowerCase (pathname parsed)) ''.pdf''
      | None \<Rightarrow> endsWith (toLowerCase url) ''.pdf'')"

subsection \<open>normalizeDomain and buildDomainFilteredQuery\<close>

definition stripProtocol :: "string \<Rightarrow> string" where
  \<comment> \<open>\<open>.replace(/^https?:\/\//, '')\<close>\<close>
  "stripProtocol s =
     (if startsWith s ''http://'' then drop 7 s
      else if startsWith s ''https://'' then drop 8 s
      else s)"

definition stripWww :: "string \<Rightarrow> string" where
  \<comment> \<open>\<open>.replace(/^www\./, '')\<close>\<close>
  "stripWww s = (if startsWith s ''www.'' then drop 4 s else s)"

definition beforeFirst :: "char \<Rightarrow> string \<Rightarrow> string" where
  \<comment> \<open>\<open>.split(c)[0]\<close>: the part before the first \<open>c\<close>, the whole string without one\<close>
  "beforeFirst c s = takeWhile (\<lambda>x. x \<noteq> c) s"

definition normalizeDomain :: "string \<Rightarrow> string" where
  "normalizeDomain domain =
     (let normalized = toLowerCase (trim domain);
          normalized = stripProtocol normalized;
          normalized = stripWww normalized;
          normalized = beforeFirst CHR ''/'' normalized;
          normalized = beforeFirst CHR '':'' normalized
      in normalized)"

definition siteOperator :: "string \<Rightarrow> string" where
  \<comment> \<open>the template \<open>`site:${domain}`\<close>\<close>
  "siteOperator domain = ''site:'' @ domain"

definition buildDomainFilteredQuery :: "string \<Rightarrow> string list \<Rightarrow> number \<Rightarrow> string" where
  "buildDomainFilteredQuery query domains maxDomainsInQuery =
     (if domains = [] then query
      else
        let normalizedDomains = filter (\<lambda>domain. length domain > 0) (map normalizeDomain domains)
        in if normalizedDomains = [] then query
           else if num_gt (Fin (of_nat (length normalizedDomains))) maxDomainsInQuery then query
           else (case normalizedDomains of
                   [d] \<Rightarrow> query @ '' '' @ siteOperator d
                 | _ \<Rightarrow> query @ '' ('' @ join '' OR '' (map siteOperator normalizedDomains) @ '')''))"

section \<open>The HTTP API\<close>

subsection \<open>Request bodies\<close>

text \<open>
  The three POST routes of \<open>api.ts\<close> are modelled from the request body to the response:
  validation of the fields, the call of the search or extraction, and the formatting of
  the response. Logging, the CORS and health handlers and the cleanup of browsers have no
  part in the response body and are left out.

  \<open>req.body\<close> is the value that \<open>express.json()\<close> parsed, an object or an array. A
  property that is absent reads as \<open>undefined\<close>. A request that leaves \<open>req.body\<close>
  itself \<open>undefined\<close> or \<open>null\<close> makes the destructuring throw and is answered 500 by
  the error middleware: such a body is outside the model, which answers 400 there. The
  properties below that conclude a 400 or a 200 response have hypotheses that only an
  object body meets.
\<close>

datatype json =
    JUndefined
  | JNull
  | JBool bool
  | JNumber number
  | JString string
  | JArray "json list"
  | JObject "(string \<times> json) list"

fun getProp :: "json \<Rightarrow> string \<Rightarrow> json" where
  "getProp (JObject kvs) k = (case map_of kvs k of Some v \<Rightarrow> v | None \<Rightarrow> JUndefined)"
| "getProp _ k = JUndefined"

definition withDefault :: "json \<Rightarrow> json \<Rightarrow> json" where
  \<comment> \<open>a destructuring default, \<open>{ limit = 5 } = req.body\<close>: used for \<open>undefined\<close> only\<close>
  "withDefault v d = (if v = JUndefined then d else v)"

fun truthy :: "json \<Rightarrow> bool" where
  "truthy JUndefined = False"
| "truthy JNull = False"
| "truthy (JBool b) = b"
| "truthy (JNumber n) = num_truthy n"
| "truthy (JString s) = (s \<noteq> [])"
| "truthy (JArray xs) = True"
| "truthy (JObject kvs) = True"

definition isDigit :: "char \<Rightarrow> bool" where
  "isDigit c = (48 \<le> (of_char c :: nat) \<and> (of_char c :: nat) \<le> 57)"

definition digitsValue :: "string \<Rightarrow> nat" where
  "digitsValue ds = foldl (\<lambda>acc c. 10 * acc + (of_char c - 48)) 0 ds"

definition parseInt10 :: "string \<Rightarrow> number" where
  \<comment> \<open>\<open>parseInt(s, 10)\<close>: leading whitespace, an optional sign, then the longest run of
      decimal digits; NaN without a digit. The value is exact here, where the double is
      the nearest one (or Infinity): both sit on the same side of 0, 1 and 10\<close>
  "parseInt10 s =
     (let t = dropWhile isWhitespace s;
          neg = (t \<noteq> [] \<and> hd t = CHR ''-'');
          u = (if t \<noteq> [] \<and> (hd t = CHR ''-'' \<or> hd t = CHR ''+'') then tl t else t);
          ds = takeWhile isDigit u
      in if ds = [] then NaN
         else Fin (if neg then - of_nat (digitsValue ds) else of_nat (digitsValue ds)))"

subsection \<open>Records of types.ts\<close>

text \<open>
  A field name is a constant of the theory: it can be neither the field of a second record
  nor a local variable of a later definition. \<open>SearchResult\<close> keeps the names of the
  source; the fields of the other records carry a prefix. The three values of
  \<open>fetchStatus\<close> are \<open>'success'\<close>, \<open>'error'\<close> and \<open>'timeout'\<close>; an optional
  property is an \<open>option\<close>, \<open>None\<close> when it is \<open>undefined\<close>.
\<close>

datatype fetch_status = FetchSuccess | FetchError | FetchTimeout

record SearchResult =
  title :: string
  url :: string
  description :: string
  fullContent :: string
  contentPreview :: string
  wordCount :: number
  timestamp :: string
  fetchStatus :: fetch_status
  error :: "string option"

record WebSearchToolInput =
  arg_query :: "string option"
  arg_keywords :: "string list option"
  arg_limit :: "number option"
  arg_includeContent :: "bool option"
  arg_maxContentLength :: "number option"
  arg_domains :: "string list option"

record WebSearchToolOutput =
  results :: "SearchResult list"
  total_results :: number
  search_time_ms :: number
  out_query :: string
  status :: "string option"

record SearchOptions =
  so_query :: string
  numResults :: "number option"
  so_timeout :: "number option"
  so_domains :: "string list option"

record SearchResultWithMetadata =
  md_results :: "SearchResult list"
  engine :: string

subsection \<open>Responses\<close>

datatype 'a http_response =
    BadRequest string
    \<comment> \<open>\<open>res.status(400).json({ error: 'Invalid request', message })\<close>\<close>
  | InternalServerError string
    \<comment> \<open>a thrown error, answered by the error middleware with status 500 and this message\<close>
  | Ok200 'a
    \<comment> \<open>\<open>res.json(response)\<close>\<close>

record FormattedResult =
  fr_title :: string
  fr_url :: string
  fr_description :: string
  fr_timestamp :: string
  fr_fetchStatus :: fetch_status
  fr_fullContent :: "string option"
  fr_contentTruncated :: "bool option"
  fr_originalLength :: "number option"
  fr_wordCount :: "number option"
  fr_contentPreview :: "string option"
  fr_error :: "string option"

record SearchApiResponse =
  sr_success :: bool
  sr_query :: string
  sr_total_results :: number
  sr_search_time_ms :: number
  sr_status :: "string option"
  sr_results :: "FormattedResult list"

record SummaryResult =
  sm_title :: string
  sm_url :: string
  sm_description :: string
  sm_timestamp :: string

record SummariesApiResponse =
  ss_success :: bool
  ss_query :: string
  ss_total_results :: number
  ss_search_time_ms :: number
  ss_engine :: string
  ss_results :: "SummaryResult list"

record ContentApiResponse =
  cr_success :: bool
  cr_url :: string
  cr_title :: string
  cr_content :: string
  cr_contentTruncated :: json
  cr_originalLength :: number
  cr_wordCount :: number
  cr_timestamp :: string

subsection \<open>Validation of the request fields\<close>

definition validateLimit :: "json \<Rightarrow> string + number option" where
  \<comment> \<open>\<open>Inl\<close> carries the message of the 400 response\<close>
  "validateLimit limit =
     (if limit \<noteq> JUndefined then
        (let limitValue = (case limit of JString s \<Rightarrow> JNumber (parseInt10 s) | _ \<Rightarrow> limit)
         in case limitValue of
              JNumber n \<Rightarrow>
                if n = NaN \<or> num_lt n (Fin 1) \<or> num_gt n (Fin 10)
                then Inl ''limit must be a number between 1 and 10''
                else Inr (Some n)
            | _ \<Rightarrow> Inl ''limit must be a number between 1 and 10'')
      else Inr None)"

definition validateIncludeContent :: "json \<Rightarrow> bool option" where
  "validateIncludeContent includeContent =
     (if includeContent \<noteq> JUndefined then
        (case includeContent of
           JString s \<Rightarrow> Some (toLowerCase s = ''true'')
         | _ \<Rightarrow> Some (truthy includeContent))
      else None)"

definition validateMaxContentLength :: "json \<Rightarrow> string + number option" where
  "validateMaxContentLength maxContentLength =
     (if maxContentLength \<noteq> JUndefined then
        (let maxLengthValue =
               (case maxContentLength of JString s \<Rightarrow> JNumber (parseInt10 s) | _ \<Rightarrow> maxContentLength)
         in case maxLengthValue of
              JNumber n \<Rightarrow>
                if n = NaN \<or> num_lt n (Fin 0)
                then Inl ''maxContentLength must be a non-negative number''
                else Inr (if n = Fin 0 then None else Some n)
            | _ \<Rightarrow> Inl ''maxContentLength must be a non-negative number'')
      else Inr None)"

fun stringsOf :: "json list \<Rightarrow> string list" where
  \<comment> \<open>\<open>.filter((d) => typeof d === 'string')\<close>\<close>
  "stringsOf [] = []"
| "stringsOf (JString s # xs) = s # stringsOf xs"
| "stringsOf (_ # xs) = stringsOf xs"

definition validateDomains :: "json \<Rightarrow> string + string list option" where
  "validateDomains domains =
     (if domains \<noteq> JUndefined then
        (case domains of
           JArray xs \<Rightarrow>
             (let validatedDomains = stringsOf xs
              in Inr (if length validatedDomains = 0 then None else Some validatedDomains))
         | _ \<Rightarrow> Inl ''domains must be an array of strings'')
      else Inr None)"

definition requiredString :: "json \<Rightarrow> string option" where
  \<comment> \<open>the guard \<open>!query || typeof query !== 'string'\<close> lets non-empty strings through\<close>
  "requiredString query = (case query of JString q \<Rightarrow> if q = [] then None else Some q | _ \<Rightarrow> None)"

subsection \<open>POST /api/search\<close>

definition validateSearchRequest :: "json \<Rightarrow> string + WebSearchToolInput" where
  "validateSearchRequest body =
     (let query = getProp body ''query'';
          limit = withDefault (getProp body ''limit'') (JNumber (Fin 5));
          includeContent = withDefault (getProp body ''includeContent'') (JBool True);
          maxContentLength = getProp body ''maxContentLength'';
          domains = getProp body ''domains''
      in case requiredString query of
           None \<Rightarrow> Inl ''query is required and must be a string''
         | Some q \<Rightarrow>
        (case validateLimit limit of
           Inl message \<Rightarrow> Inl message
         | Inr validatedLimit \<Rightarrow>
        (let validatedIncludeContent = validateIncludeContent includeContent
         in case validateMaxContentLength maxContentLength of
           Inl message \<Rightarrow> Inl message
         | Inr validatedMaxContentLength \<Rightarrow>
        (case validateDomains domains of
           Inl message \<Rightarrow> Inl message
         | Inr validatedDomains \<Rightarrow>
             Inr \<lparr>arg_query = Some q, arg_keywords = None, arg_limit = validatedLimit,
                  arg_includeContent = validatedIncludeContent,
                  arg_maxContentLength = validatedMaxContentLength,
                  arg_domains = validatedDomains\<rparr>))))"

definition exceedsLimit :: "number option \<Rightarrow> string \<Rightarrow> bool" where
  \<comment> \<open>the condition \<open>validatedMaxContentLength && validatedMaxContentLength > 0 &&
      content.length > validatedMaxContentLength\<close>\<close>
  "exceedsLimit validatedMaxContentLength content =
     (case validatedMaxContentLength of
        None \<Rightarrow> False
      | Some m \<Rightarrow> num_truthy m \<and> num_gt m (Fin 0) \<and> num_gt (lengthOf content) m)"

definition formatResult :: "number option \<Rightarrow> SearchResult \<Rightarrow> FormattedResult" where
  "formatResult validatedMaxContentLength searchResult =
     (let formattedResult =
            \<lparr>fr_title = title searchResult, fr_url = url searchResult,
             fr_description = description searchResult, fr_timestamp = timestamp searchResult,
             fr_fetchStatus = fetchStatus searchResult,
             fr_fullContent = None, fr_contentTruncated = None, fr_originalLength = None,
             fr_wordCount = None, fr_contentPreview = None, fr_error = None\<rparr>;
          formattedResult =
            (if fullContent searchResult \<noteq> [] \<and> trim (fullContent searchResult) \<noteq> [] then
               (let content = fullContent searchResult
                in (if exceedsLimit validatedMaxContentLength content
                    then formattedResult
                           \<lparr>fr_fullContent := Some (substringTo content validatedMaxContentLength),
                            fr_contentTruncated := Some True,
                            fr_originalLength := Some (lengthOf (fullContent searchResult))\<rparr>
                    else formattedResult\<lparr>fr_fullContent := Some content\<rparr>)
                   \<lparr>fr_wordCount := Some (wordCount searchResult)\<rparr>)
             else if contentPreview searchResult \<noteq> [] \<and> trim (contentPreview searchResult) \<noteq> []
             then formattedResult\<lparr>fr_contentPreview := Some (contentPreview searchResult)\<rparr>
             else formattedResult);
          formattedResult =
            (if fetchStatus searchResult = FetchError \<and>
                (case error searchResult of Some e \<Rightarrow> e \<noteq> [] | None \<Rightarrow> False)
             then formattedResult\<lparr>fr_error := error searchResult\<rparr>
             else formattedResult)
      in formattedResult)"

text \<open>
  \<open>handleWebSearch\<close> awaits the search engine and the content extractor, which live
  outside these sources; the route is modelled for any outcome of it: \<open>Inl message\<close>
  when it throws \<open>Error(message)\<close>, the output otherwise.
\<close>

type_synonym web_search = "WebSearchToolInput \<Rightarrow> string + WebSearchToolOutput"

definition errorMessage :: "string \<Rightarrow> string" where
  \<comment> \<open>\<open>err.message || 'An unexpected error occurred'\<close>\<close>
  "errorMessage message = (if message = [] then ''An unexpected error occurred'' else message)"

definition api_search :: "web_search \<Rightarrow> json \<Rightarrow> SearchApiResponse http_response" where
  "api_search handleWebSearch body =
     (case validateSearchRequest body of
        Inl message \<Rightarrow> BadRequest message
      | Inr validatedArgs \<Rightarrow>
          (case handleWebSearch validatedArgs of
             Inl message \<Rightarrow> InternalServerError (errorMessage message)
           | Inr result \<Rightarrow>
               Ok200 \<lparr>sr_success = True, sr_query = out_query result,
                      sr_total_results = total_results result,
                      sr_search_time_ms = search_time_ms result,
                      sr_status = status result,
                      sr_results = map (formatResult (arg_maxContentLength validatedArgs)) (results result)\<rparr>))"

subsection \<open>POST /api/search/summaries\<close>

definition validateSummariesRequest :: "json \<Rightarrow> string + SearchOptions" where
  "validateSummariesRequest body =
     (let query = getProp body ''query'';
          limit = withDefault (getProp body ''limit'') (JNumber (Fin 5));
          domains = getProp body ''domains''
      in case requiredString query of
           None \<Rightarrow> Inl ''query is required and must be a string''
         | Some q \<Rightarrow>
        (case validateLimit limit of
           Inl message \<Rightarrow> Inl message
         | Inr validatedLimit \<Rightarrow>
        (case validateDomains domains of
           Inl message \<Rightarrow> Inl message
         | Inr validatedDomains \<Rightarrow>
             Inr \<lparr>so_query = q, numResults = validatedLimit, so_timeout = None,
                  so_domains = validatedDomains\<rparr>)))"

text \<open>
  The search engine is outside these sources: a parameter, \<open>Inl message\<close> when it
  throws. \<open>searchTime\<close> is the difference of the two readings of the clock.
\<close>

type_synonym search_engine = "SearchOptions \<Rightarrow> string + SearchResultWithMetadata"

definition api_search_summaries ::
  "search_engine \<Rightarrow> number \<Rightarrow> json \<Rightarrow> SummariesApiResponse http_response" where
  "api_search_summaries search searchTime body =
     (case validateSummariesRequest body of
        Inl message \<Rightarrow> BadRequest message
      | Inr options \<Rightarrow>
          (case search options of
             Inl message \<Rightarrow> InternalServerError (errorMessage message)
           | Inr searchResponse \<Rightarrow>
               (let summaryResults =
                      map (\<lambda>item. \<lparr>sm_title = title item, sm_url = url item,
                                    sm_description = description item,
                                    sm_timestamp = timestamp item\<rparr>)
                          (md_results searchResponse)
                in Ok200 \<lparr>ss_success = True, ss_query = so_query options,
                          ss_total_results = Fin (of_nat (length summaryResults)),
                          ss_search_time_ms = searchTime,
                          ss_engine = engine searchResponse,
                          ss_results = summaryResults\<rparr>)))"

subsection \<open>POST /api/content\<close>

text \<open>\<open>.split(/\s+/)\<close>: the pieces between the maximal runs of whitespace.\<close>

function splitWhitespace :: "string \<Rightarrow> string list" where
  "splitWhitespace s =
     (if dropWhile (\<lambda>c. \<not> isWhitespace c) s = [] then [takeWhile (\<lambda>c. \<not> isWhitespace c) s]
      else takeWhile (\<lambda>c. \<not> isWhitespace c) s #
           splitWhitespace (dropWhile isWhitespace (dropWhile (\<lambda>c. \<not> isWhitespace c) s)))"
  by pat_completeness auto
termination
proof (relation "measure length", goal_cases)
  case 1
  show ?case by simp
next
  case (2 s)
  let ?r = "dropWhile (\<lambda>c. \<not> isWhitespace c) s"
  from 2 obtain x xs where r: "?r = x # xs" by (cases ?r) auto
  then have "isWhitespace x" using hd_dropWhile [of "\<lambda>c. \<not> isWhitespace c" s] by auto
  then have "length (dropWhile isWhitespace ?r) \<le> length xs"
    using r by (simp add: length_dropWhile_le)
  moreover have "length ?r \<le> length s" by (rule length_dropWhile_le)
  ultimately show ?case using r by simp
qed

declare splitWhitespace.simps [simp del]

text \<open>
  The extractor is outside these sources: a parameter taking the url and the
  \<open>maxContentLength\<close> option, \<open>Inl message\<close> when it throws. \<open>now\<close> is
  \<open>new Date().toISOString()\<close>.
\<close>

type_synonym content_extractor = "string \<Rightarrow> number option \<Rightarrow> string + string"

definition contentTruncatedValue :: "number option \<Rightarrow> string \<Rightarrow> json" where
  \<comment> \<open>the value of the \<open>&&\<close> chain, which is its first falsy operand or the last one\<close>
  "contentTruncatedValue validatedMaxContentLength content =
     (case validatedMaxContentLength of
        None \<Rightarrow> JUndefined
      | Some m \<Rightarrow>
          if \<not> num_truthy m then JNumber m
          else if \<not> num_gt m (Fin 0) then JBool False
          else JBool (num_gt (lengthOf content) m))"

definition api_content ::
  "url_parser \<Rightarrow> content_extractor \<Rightarrow> string \<Rightarrow> json \<Rightarrow> ContentApiResponse http_response" where
  "api_content parseURL extractContent now body =
     (let urlValue = getProp body ''url'';
          maxContentLength = getProp body ''maxContentLength''
      in case requiredString urlValue of
           None \<Rightarrow> BadRequest ''url is required and must be a string''
         | Some u \<Rightarrow>
        (case parseURL u of
           None \<Rightarrow> BadRequest ''url must be a valid URL''
         | Some urlObj \<Rightarrow>
        (case validateMaxContentLength maxContentLength of
           Inl message \<Rightarrow> BadRequest message
         | Inr validatedMaxContentLength \<Rightarrow>
        (case extractContent u validatedMaxContentLength of
           Inl message \<Rightarrow> InternalServerError (errorMessage message)
         | Inr content \<Rightarrow>
             Ok200 \<lparr>cr_success = True, cr_url = u,
                    cr_title = hostname urlObj @ pathname urlObj,
                    cr_content =
                      (if exceedsLimit validatedMaxContentLength content
                       then substringTo content validatedMaxContentLength
                       else content),
                    cr_contentTruncated = contentTruncatedValue validatedMaxContentLength content,
                    cr_originalLength = lengthOf content,
                    cr_wordCount =
                      Fin (of_nat (length (filter (\<lambda>word. length word > 0) (splitWhitespace content)))),
                    cr_timestamp = now\<rparr>))))"

section \<open>Definitions used to state the properties\<close>

text \<open>
  Whitespace in normal form: every whitespace character is a single space that is
  followed by a character that is not whitespace, or by the end of the string.
\<close>

fun tidy :: "string \<Rightarrow> bool" where
  "tidy [] = True"
| "tidy [c] = (isWhitespace c \<longrightarrow> c = CHR '' '')"
| "tidy (c # d # cs) = ((isWhitespace c \<longrightarrow> c = CHR '' '' \<and> \<not> isWhitespace d) \<and> tidy (d # cs))"

text \<open>
  Domain normalization as the specification words it: lowercase, strip a leading
  \<open>http://\<close> or \<open>https://\<close>, strip a leading \<open>www.\<close>, cut at the first \<open>/\<close> and at
  the first \<open>:\<close>.
\<close>

definition normalizeDomain_spec :: "string \<Rightarrow> string" where
  "normalizeDomain_spec s =
     beforeFirst CHR '':'' (beforeFirst CHR ''/'' (stripWww (stripProtocol (toLowerCase s))))"

text \<open>
  Ending in \<open>.pdf\<close> whatever the case of the letters, said without \<open>toLowerCase\<close>:
  the last four characters are a dot, \<open>p\<close> or \<open>P\<close>, \<open>d\<close> or \<open>D\<close>, \<open>f\<close> or \<open>F\<close>.
\<close>

definition endsInPdf :: "string \<Rightarrow> bool" where
  "endsInPdf s =
     (case rev s of
        c # b # a # dot # _ \<Rightarrow>
          dot = CHR ''.'' \<and> (a = CHR ''p'' \<or> a = CHR ''P'') \<and> (b = CHR ''d'' \<or> b = CHR ''D'') \<and>
          (c = CHR ''f'' \<or> c = CHR ''F'')
      | _ \<Rightarrow> False)"

text \<open>
  A small URL parser to run the examples with: it accepts \<open>scheme://host/path\<close> and
  rejects a string without \<open>://\<close> after a nonempty scheme, as the platform's parser does
  on the two example strings.
\<close>

definition exampleParser :: url_parser where
  "exampleParser s =
     (let scheme = takeWhile (\<lambda>x. x \<noteq> CHR '':'') s;
          rest = dropWhile (\<lambda>x. x \<noteq> CHR '':'') s
      in if scheme \<noteq> [] \<and> startsWith rest ''://''
         then Some \<lparr>protocol = scheme @ '':'',
                    hostname = takeWhile (\<lambda>x. x \<noteq> CHR ''/'') (drop 3 rest),
                    pathname = (let p = dropWhile (\<lambda>x. x \<noteq> CHR ''/'') (drop 3 rest)
                                in if p = [] then ''/'' else p)\<rparr>
         else None)"

text \<open>
  The count a request asks for: 5 when the body has no \<open>limit\<close>, the number when
  \<open>limit\<close> is one, what \<open>parseInt(limit, 10)\<close> reads when it is a string, and none
  for any other value.
\<close>

definition requestedCount :: "json \<Rightarrow> number option" where
  "requestedCount raw =
     (case raw of
        JUndefined \<Rightarrow> Some (Fin 5)
      | JNumber n \<Rightarrow> Some n
      | JString s \<Rightarrow> Some (parseInt10 s)
      | _ \<Rightarrow> None)"

text \<open>
  Three result records, a search pipeline that returns them whatever it is asked, and an
  extractor that returns a fixed text, to run the routes with.
\<close>

definition pageResult :: SearchResult where
  "pageResult =
     \<lparr>title = ''A page'', url = ''https://example.com/a'', description = ''first'',
      fullContent = ''abcdef'', contentPreview = ''abc...'', wordCount = Fin 1,
      timestamp = ''2024-01-01T00:00:00.000Z'', fetchStatus = FetchSuccess, error = None\<rparr>"

definition timedOutResult :: SearchResult where
  "timedOutResult =
     \<lparr>title = ''B page'', url = ''https://example.com/b'', description = ''second'',
      fullContent = [], contentPreview = ''snippet'', wordCount = Fin 0,
      timestamp = ''2024-01-01T00:00:00.000Z'', fetchStatus = FetchTimeout,
      error = Some ''Timeout of 6000ms exceeded''\<rparr>"

definition failedResult :: SearchResult where
  "failedResult = timedOutResult\<lparr>fetchStatus := FetchError, error := Some ''HTTP 403''\<rparr>"

definition exampleWebSearch :: web_search where
  "exampleWebSearch args =
     Inr \<lparr>results = [pageResult, timedOutResult, failedResult], total_results = Fin 3,
          search_time_ms = Fin 12, out_query = ''cats'', status = None\<rparr>"

definition exampleExtractor :: content_extractor where
  "exampleExtractor u v = Inr ''abcdef''"

section \<open>Text cleaning\<close>

subsection \<open>Whitespace in normal form\<close>

lemma dropWhile_ws_cases:
  "dropWhile isWhitespace cs = [] \<or> (\<exists>d ds. dropWhile isWhitespace cs = d # ds \<and> \<not> isWhitespace d)"
  by (metis hd_dropWhile list.exhaust list.sel(1))

lemma tidy_collapseWhitespace: "tidy (collapseWhitespace s)"
proof (induction s rule: collapseWhitespace.induct)
  case 1
  show ?case by simp
next
  case (2 c cs)
  show ?case
  proof (cases "isWhitespace c")
    case True
    then have step: "collapseWhitespace (c # cs) = CHR '' '' # collapseWhitespace (dropWhile isWhitespace cs)"
      by simp
    from dropWhile_ws_cases [of cs] show ?thesis
    proof
      assume e: "dropWhile isWhitespace cs = []"
      have "collapseWhitespace (dropWhile isWhitespace cs) = []"
        by (simp only: e collapseWhitespace.simps)
      with step show ?thesis by simp
    next
      assume "\<exists>d ds. dropWhile isWhitespace cs = d # ds \<and> \<not> isWhitespace d"
      then obtain d ds where d: "dropWhile isWhitespace cs = d # ds" "\<not> isWhitespace d" by blast
      from True 2(1) have "tidy (collapseWhitespace (dropWhile isWhitespace cs))" by simp
      then have t: "tidy (d # collapseWhitespace ds)" using d by simp
      have "collapseWhitespace (c # cs) = CHR '' '' # d # collapseWhitespace ds"
        using step d by simp
      then show ?thesis using t d by simp
    qed
  next
    case False
    with 2(2) have ih: "tidy (collapseWhitespace cs)" by simp
    show ?thesis
    proof (cases "collapseWhitespace cs")
      case Nil
      with False show ?thesis by simp
    next
      case (Cons e es)
      with False ih show ?thesis by simp
    qed
  qed
qed

lemma tidy_tl: "tidy (c # cs) \<Longrightarrow> tidy cs"
  by (cases cs) auto

lemma tidy_collapse_id: "tidy s \<Longrightarrow> collapseWhitespace s = s"
proof (induction s rule: tidy.induct)
  case 1
  show ?case by simp
next
  case (2 c)
  then show ?case by simp
next
  case (3 c d cs)
  then show ?case by auto
qed

lemma tidy_ws_space: "tidy s \<Longrightarrow> x \<in> set s \<Longrightarrow> isWhitespace x \<Longrightarrow> x = CHR '' ''"
  by (induction s rule: tidy.induct) auto

lemma tidy_no_newline: "tidy s \<Longrightarrow> CHR 0x0A \<notin> set s"
  by (induction s rule: tidy.induct) (auto simp: isWhitespace_def)

lemma collapseBlankLines_id: "CHR 0x0A \<notin> set s \<Longrightarrow> collapseBlankLines s = s"
  by (induction s) auto

lemma tidy_take: "tidy s \<Longrightarrow> tidy (take k s)"
proof (induction s arbitrary: k rule: tidy.induct)
  case 1
  show ?case by simp
next
  case (2 c)
  then show ?case by (cases k) auto
next
  case (3 c d cs)
  show ?case
  proof (cases k)
    case 0
    then show ?thesis by simp
  next
    case (Suc j)
    from 3(1) [of j] 3(2) Suc show ?thesis by (cases j) auto
  qed
qed

lemma tidy_dropWhile: "tidy s \<Longrightarrow> tidy (dropWhile P s)"
  by (induction s) (auto dest: tidy_tl)

lemma tidy_last2: "tidy (xs @ [a, b]) \<Longrightarrow> isWhitespace b \<Longrightarrow> \<not> isWhitespace a"
  by (induction xs rule: tidy.induct) (auto simp: isWhitespace_def)

lemma trimEnd_take:
  "rev (dropWhile P (rev xs)) = take (length xs - length (takeWhile P (rev xs))) xs"
  by (metis (no_types) length_rev rev_drop rev_rev_ident dropWhile_eq_drop)

lemma tidy_trim: "tidy s \<Longrightarrow> tidy (trim s)"
  unfolding trim_def trimEnd_take by (intro tidy_take tidy_dropWhile)

lemma trim_head: "trim s = [] \<or> \<not> isWhitespace (hd (trim s))"
proof -
  let ?y = "dropWhile isWhitespace s"
  obtain k where k: "trim s = take k ?y" unfolding trim_def trimEnd_take by blast
  show ?thesis
  proof (cases "trim s = []")
    case True
    then show ?thesis by simp
  next
    case False
    with k have "?y \<noteq> []" "k \<noteq> 0" by auto
    then have "hd (trim s) = hd ?y" using k by (cases ?y; cases k) auto
    moreover have "\<not> isWhitespace (hd ?y)" using \<open>?y \<noteq> []\<close> by (rule hd_dropWhile)
    ultimately show ?thesis by simp
  qed
qed

lemma trim_tidy:
  assumes "tidy c" "c \<noteq> []" "\<not> isWhitespace (hd c)"
  shows "trim c = (if isWhitespace (last c) then butlast c else c)"
proof -
  from assms have d: "dropWhile isWhitespace c = c" by (cases c) auto
  show ?thesis
  proof (cases "isWhitespace (last c)")
    case False
    with assms(2) have "dropWhile isWhitespace (rev c) = rev c"
      by (cases c rule: rev_cases) auto
    with d False show ?thesis by (simp add: trim_def)
  next
    case True
    from assms(2) obtain xs b where c: "c = xs @ [b]" by (cases c rule: rev_cases) auto
    with True have b: "isWhitespace b" by simp
    with assms(3) c have "xs \<noteq> []" by auto
    then obtain ys a where xs: "xs = ys @ [a]" by (cases xs rule: rev_cases) auto
    with assms(1) c b have "\<not> isWhitespace a" using tidy_last2 [of ys a b] by simp
    then have "dropWhile isWhitespace (rev c) = a # rev ys" using b c xs by simp
    then have "trim c = ys @ [a]" using d by (simp add: trim_def)
    moreover have "butlast c = ys @ [a]" using c xs by (simp add: butlast_append)
    ultimately show ?thesis using True by simp
  qed
qed

subsection \<open>substring\<close>

lemma substring0_take: "\<exists>k. substring0 s m = take k s"
proof (cases m)
  case PosInf
  then have "substring0 s m = take (length s) s" by simp
  then show ?thesis by blast
qed (auto intro: exI [of _ 0])

lemma substring0_short: "length s' \<le> length (substring0 s m) \<Longrightarrow> substring0 s' m = s'"
  by (cases m) auto

subsection \<open>cleanText applied to its own result\<close>

lemma cleanText_props:
  "tidy (cleanText t m) \<and> (cleanText t m = [] \<or> \<not> isWhitespace (hd (cleanText t m)))"
proof -
  let ?n = "trim (collapseBlankLines (collapseWhitespace t))"
  have cb: "collapseBlankLines (collapseWhitespace t) = collapseWhitespace t"
    by (intro collapseBlankLines_id tidy_no_newline tidy_collapseWhitespace)
  have tn: "tidy ?n" unfolding cb by (intro tidy_trim tidy_collapseWhitespace)
  obtain k where k: "cleanText t m = take k ?n"
    unfolding cleanText_def using substring0_take by blast
  have "tidy (take k ?n)" using tn by (rule tidy_take)
  moreover have "take k ?n = [] \<or> \<not> isWhitespace (hd (take k ?n))"
    using trim_head [of "collapseBlankLines (collapseWhitespace t)"]
    by (cases ?n; cases k) auto
  ultimately show ?thesis using k by simp
qed

lemma cleanText_again:
  "cleanText (cleanText t m) m =
     (if cleanText t m \<noteq> [] \<and> isWhitespace (last (cleanText t m))
      then butlast (cleanText t m) else cleanText t m)"
proof -
  let ?c = "cleanText t m"
  from cleanText_props [of t m] have t: "tidy ?c" and h: "?c = [] \<or> \<not> isWhitespace (hd ?c)"
    by blast+
  have 1: "collapseWhitespace ?c = ?c" using t by (rule tidy_collapse_id)
  have 2: "collapseBlankLines ?c = ?c" using t by (intro collapseBlankLines_id tidy_no_newline)
  have 3: "trim ?c = (if ?c \<noteq> [] \<and> isWhitespace (last ?c) then butlast ?c else ?c)"
  proof (cases "?c = []")
    case True
    then show ?thesis by (simp add: trim_def)
  next
    case False
    with h t show ?thesis using trim_tidy [of ?c] by simp
  qed
  have len: "length (trim ?c) \<le> length (substring0 (trim (collapseBlankLines (collapseWhitespace t))) m)"
    unfolding 3 by (simp add: cleanText_def)
  have "cleanText ?c m = substring0 (trim ?c) m"
    by (subst (1) cleanText_def) (simp only: 1 2)
  also have "\<dots> = trim ?c" using len by (rule substring0_short)
  finally show ?thesis using 3 by simp
qed

text \<open>
  C2, as stated: cleaning cleaned text would change nothing. It does when the cap cuts
  right after a space: \<open>cleanText("a b", 2)\<close> is \<open>"a "\<close>, which the second pass trims
  to \<open>"a"\<close>.
\<close>

theorem cleanText_idempotent_counterexample:
  "cleanText ''a b'' (Fin 2) = ''a '' \<and> cleanText (cleanText ''a b'' (Fin 2)) (Fin 2) = ''a'' \<and>
   cleanText (cleanText ''a b'' (Fin 2)) (Fin 2) \<noteq> cleanText ''a b'' (Fin 2)"
  by code_simp

text \<open>
  C2, amended: \<open>cleanText(cleanText(t, m), m) = cleanText(t, m)\<close> holds exactly when
  \<open>cleanText(t, m)\<close> does not end in a space, for every string \<open>t\<close> and every number
  \<open>m\<close>; otherwise the second pass removes that final space.
\<close>

theorem cleanText_twice_iff:
  "cleanText (cleanText t m) m = cleanText t m \<longleftrightarrow>
     (cleanText t m = [] \<or> last (cleanText t m) \<noteq> CHR '' '')"
proof -
  let ?c = "cleanText t m"
  have t: "tidy ?c" using cleanText_props [of t m] by blast
  have sp: "isWhitespace (last ?c) \<longleftrightarrow> last ?c = CHR '' ''" if "?c \<noteq> []"
    using tidy_ws_space [OF t, of "last ?c"] that by (auto simp: isWhitespace_def)
  have ne: "butlast ?c \<noteq> ?c" if "?c \<noteq> []"
    using that by (metis append_butlast_last_id append_self_conv not_Cons_self2)
  show ?thesis
    unfolding cleanText_again [of t m] using sp ne by auto
qed

theorem cleanText_twice_iff_witness:
  "cleanText ''  a   b  '' (Fin 10) = ''a b'' \<and>
   cleanText (cleanText ''  a   b  '' (Fin 10)) (Fin 10) = cleanText ''  a   b  '' (Fin 10)"
proof -
  have c: "cleanText ''  a   b  '' (Fin 10) = ''a b''" by code_simp
  show ?thesis using cleanText_twice_iff [of "''  a   b  ''" "Fin 10"] c by simp
qed

section \<open>Content preview\<close>

lemma endsWith_append: "endsWith (xs @ e) e"
  by (simp add: endsWith_def)

text \<open>
  C4, as stated: the preview would end with \<open>...\<close> only if the cleaned text has length
  exactly \<open>n\<close>. A text that itself ends in three dots is returned as it is, whatever its
  length: \<open>getContentPreview("wait...", 500)\<close> is \<open>"wait..."\<close>, of length 7.
\<close>

theorem getContentPreview_iff_counterexample:
  "endsWith (getContentPreview ''wait...'' (Fin 500)) ''...'' \<and>
   lengthOf (cleanText ''wait...'' (Fin 500)) \<noteq> Fin 500"
  by code_simp

text \<open>
  C4, amended: \<open>getContentPreview(text, n)\<close> is \<open>cleanText(text, n)\<close> with the marker
  \<open>...\<close> appended if and only if \<open>cleanText(text, n)\<close> has length exactly \<open>n\<close>;
  it ends with \<open>...\<close> if and only if that length is \<open>n\<close> or the cleaned text already
  ends with \<open>...\<close>.
\<close>

theorem getContentPreview_ellipsis:
  "(getContentPreview text n = cleanText text n @ ''...'' \<longleftrightarrow> lengthOf (cleanText text n) = n) \<and>
   (endsWith (getContentPreview text n) ''...'' \<longleftrightarrow>
      lengthOf (cleanText text n) = n \<or> endsWith (cleanText text n) ''...'')"
  using endsWith_append [of "cleanText text n" "''...''"]
  by (simp add: getContentPreview_def Let_def)

theorem getContentPreview_ellipsis_witness:
  "lengthOf (cleanText ''hello world'' (Fin 5)) = Fin 5 \<and>
   getContentPreview ''hello world'' (Fin 5) = ''hello...'' \<and>
   endsWith (getContentPreview ''hello world'' (Fin 5)) ''...''"
proof -
  have c: "cleanText ''hello world'' (Fin 5) = ''hello''" by code_simp
  have l: "lengthOf ''hello'' = Fin 5" by (simp add: lengthOf_def)
  from getContentPreview_ellipsis [of "''hello world''" "Fin 5"]
  show ?thesis unfolding c using l by auto
qed

section \<open>Document-file detection\<close>

lemma toLowerChar_eq_D:
  assumes "toLowerChar c = l"
  shows "c = l \<or> ((of_char c :: nat) + 32 = of_char l \<and> 65 \<le> (of_char c :: nat))"
proof (cases "(65 \<le> (of_char c :: nat) \<and> (of_char c :: nat) \<le> 90) \<or>
              (192 \<le> (of_char c :: nat) \<and> (of_char c :: nat) \<le> 222 \<and> (of_char c :: nat) \<noteq> 215)")
  case True
  then have "l = char_of ((of_char c :: nat) + 32)"
    using assms by (simp add: toLowerChar_def Let_def)
  then have "(of_char l :: nat) = ((of_char c :: nat) + 32) mod 256" by simp
  with True show ?thesis by auto
next
  case False
  then show ?thesis using assms by (auto simp: toLowerChar_def Let_def)
qed

lemma of_char_eq_numeral: "(of_char c :: nat) = of_char d \<Longrightarrow> c = d"
  by simp

lemma low:
  "toLowerChar CHR ''p'' = CHR ''p''" "toLowerChar CHR ''P'' = CHR ''p''"
  "toLowerChar CHR ''d'' = CHR ''d''" "toLowerChar CHR ''D'' = CHR ''d''"
  "toLowerChar CHR ''f'' = CHR ''f''" "toLowerChar CHR ''F'' = CHR ''f''"
  by code_simp+

lemma toLowerChar_p: "toLowerChar c = CHR ''p'' \<longleftrightarrow> c = CHR ''p'' \<or> c = CHR ''P''"
proof
  assume "toLowerChar c = CHR ''p''"
  from toLowerChar_eq_D [OF this] show "c = CHR ''p'' \<or> c = CHR ''P''"
  proof
    assume "(of_char c :: nat) + 32 = of_char CHR ''p'' \<and> 65 \<le> (of_char c :: nat)"
    then have "(of_char c :: nat) = of_char CHR ''P''" by simp
    then have "c = CHR ''P''" by (simp only: of_char_eq_iff)
    then show "c = CHR ''p'' \<or> c = CHR ''P''" by simp
  qed simp
qed (use low in auto)

lemma toLowerChar_d: "toLowerChar c = CHR ''d'' \<longleftrightarrow> c = CHR ''d'' \<or> c = CHR ''D''"
proof
  assume "toLowerChar c = CHR ''d''"
  from toLowerChar_eq_D [OF this] show "c = CHR ''d'' \<or> c = CHR ''D''"
  proof
    assume "(of_char c :: nat) + 32 = of_char CHR ''d'' \<and> 65 \<le> (of_char c :: nat)"
    then have "(of_char c :: nat) = of_char CHR ''D''" by simp
    then have "c = CHR ''D''" by (simp only: of_char_eq_iff)
    then show "c = CHR ''d'' \<or> c = CHR ''D''" by simp
  qed simp
qed (use low in auto)

lemma toLowerChar_f: "toLowerChar c = CHR ''f'' \<longleftrightarrow> c = CHR ''f'' \<or> c = CHR ''F''"
proof
  assume "toLowerChar c = CHR ''f''"
  from toLowerChar_eq_D [OF this] show "c = CHR ''f'' \<or> c = CHR ''F''"
  proof
    assume "(of_char c :: nat) + 32 = of_char CHR ''f'' \<and> 65 \<le> (of_char c :: nat)"
    then have "(of_char c :: nat) = of_char CHR ''F''" by simp
    then have "c = CHR ''F''" by (simp only: of_char_eq_iff)
    then show "c = CHR ''f'' \<or> c = CHR ''F''" by simp
  qed simp
qed (use low in auto)

lemma toLowerChar_dot: "toLowerChar c = CHR ''.'' \<longleftrightarrow> c = CHR ''.''"
proof
  assume "toLowerChar c = CHR ''.''"
  from toLowerChar_eq_D [OF this] show "c = CHR ''.''" by auto
qed (auto simp: toLowerChar_def)

lemma endsWith_rev: "endsWith s e \<longleftrightarrow> take (length e) (rev s) = rev e"
proof
  assume "endsWith s e"
  then have l: "length e \<le> length s" and d: "drop (length s - length e) s = e"
    by (auto simp: endsWith_def)
  have "take (length e) (rev s) = rev (drop (length s - length e) s)"
    by (simp add: take_rev)
  with d show "take (length e) (rev s) = rev e" by simp
next
  assume a: "take (length e) (rev s) = rev e"
  then have "length (take (length e) (rev s)) = length e" by simp
  then have l: "length e \<le> length s" by simp
  have "drop (length s - length e) s = rev (take (length e) (rev s))"
    by (simp add: take_rev)
  with a l show "endsWith s e" by (simp add: endsWith_def)
qed


lemma endsInPdf_rev:
  "endsInPdf s \<longleftrightarrow>
     (\<exists>c b a dot r. rev s = c # b # a # dot # r \<and> dot = CHR ''.'' \<and>
        (a = CHR ''p'' \<or> a = CHR ''P'') \<and> (b = CHR ''d'' \<or> b = CHR ''D'') \<and>
        (c = CHR ''f'' \<or> c = CHR ''F''))"
  unfolding endsInPdf_def by (simp split: list.splits)

lemma take4_map:
  "take (Suc (Suc (Suc (Suc 0)))) (map f xs) = [w, x, y, z] \<longleftrightarrow>
     (\<exists>c b a d r. xs = c # b # a # d # r \<and> f c = w \<and> f b = x \<and> f a = y \<and> f d = z)"
proof (cases xs)
  case Nil
  then show ?thesis by simp
next
  case (Cons c xs1)
  show ?thesis
  proof (cases xs1)
    case Nil
    with Cons show ?thesis by simp
  next
    case (Cons b xs2)
    note c2 = this
    show ?thesis
    proof (cases xs2)
      case Nil
      with \<open>xs = c # xs1\<close> c2 show ?thesis by simp
    next
      case (Cons a xs3)
      note c3 = this
      show ?thesis
      proof (cases xs3)
        case Nil
        with \<open>xs = c # xs1\<close> c2 c3 show ?thesis by simp
      next
        case (Cons d r)
        have "take (Suc (Suc (Suc (Suc 0)))) (map f xs) = [f c, f b, f a, f d]"
          using \<open>xs = c # xs1\<close> c2 c3 Cons by simp
        then show ?thesis using \<open>xs = c # xs1\<close> c2 c3 Cons by simp
      qed
    qed
  qed
qed

lemma endsWith_pdf: "endsWith (toLowerCase s) ''.pdf'' \<longleftrightarrow> endsInPdf s"
proof -
  have "endsWith (toLowerCase s) ''.pdf'' \<longleftrightarrow>
          take (Suc (Suc (Suc (Suc 0)))) (map toLowerChar (rev s)) = [CHR ''f'', CHR ''d'', CHR ''p'', CHR ''.'']"
    by (simp add: endsWith_rev toLowerCase_def rev_map)
  also have "\<dots> \<longleftrightarrow> endsInPdf s"
    unfolding endsInPdf_rev take4_map toLowerChar_p toLowerChar_d toLowerChar_f toLowerChar_dot
    by blast
  finally show ?thesis .
qed


text \<open>
  C8: for every string \<open>url\<close>, \<open>isPdfUrl(url)\<close> is true if and only if either
  \<open>url\<close> parses as a URL whose path ends in \<open>.pdf\<close> case-insensitively, or \<open>url\<close> fails
  to parse and the raw string ends in \<open>.pdf\<close> case-insensitively. This holds for any
  behaviour of the URL parser. In particular \<open>isPdfUrl("https://x.com/report.PDF")\<close> is
  true when the parser gives the path \<open>/report.PDF\<close>, and
  \<open>isPdfUrl("not-a-url-but-ends-in.pdf")\<close> is true when the parser rejects that string.
\<close>

theorem isPdfUrl_iff:
  "(isPdfUrl parseURL u \<longleftrightarrow>
      (\<exists>parsed. parseURL u = Some parsed \<and> endsInPdf (pathname parsed)) \<or>
      (parseURL u = None \<and> endsInPdf u)) \<and>
   ((\<exists>parsed. parseURL ''https://x.com/report.PDF'' = Some parsed \<and> pathname parsed = ''/report.PDF'')
      \<longrightarrow> isPdfUrl parseURL ''https://x.com/report.PDF'') \<and>
   (parseURL ''not-a-url-but-ends-in.pdf'' = None
      \<longrightarrow> isPdfUrl parseURL ''not-a-url-but-ends-in.pdf'')"
proof -
  have 1: "isPdfUrl parseURL x \<longleftrightarrow>
      (\<exists>parsed. parseURL x = Some parsed \<and> endsInPdf (pathname parsed)) \<or>
      (parseURL x = None \<and> endsInPdf x)" for x
    by (cases "parseURL x") (simp_all add: isPdfUrl_def endsWith_pdf)
  have 2: "endsInPdf ''/report.PDF''" by (simp add: endsInPdf_def)
  have 3: "endsInPdf ''not-a-url-but-ends-in.pdf''" by (simp add: endsInPdf_def)
  have a: "isPdfUrl parseURL ''https://x.com/report.PDF''"
    if "\<exists>parsed. parseURL ''https://x.com/report.PDF'' = Some parsed \<and> pathname parsed = ''/report.PDF''"
    using that 2 unfolding 1 by auto
  have b: "isPdfUrl parseURL ''not-a-url-but-ends-in.pdf''"
    if "parseURL ''not-a-url-but-ends-in.pdf'' = None"
    using that 3 unfolding 1 by simp
  show ?thesis using 1 [of u] a b by blast
qed

theorem isPdfUrl_iff_witness:
  "exampleParser ''https://x.com/report.PDF'' =
     Some \<lparr>protocol = ''https:'', hostname = ''x.com'', pathname = ''/report.PDF''\<rparr> \<and>
   isPdfUrl exampleParser ''https://x.com/report.PDF'' \<and>
   exampleParser ''not-a-url-but-ends-in.pdf'' = None \<and>
   isPdfUrl exampleParser ''not-a-url-but-ends-in.pdf''"
proof -
  have a: "exampleParser ''https://x.com/report.PDF'' =
             Some \<lparr>protocol = ''https:'', hostname = ''x.com'', pathname = ''/report.PDF''\<rparr>"
    by code_simp
  have b: "exampleParser ''not-a-url-but-ends-in.pdf'' = None" by code_simp
  show ?thesis
    using isPdfUrl_iff [of exampleParser "''https://x.com/report.PDF''"] a b
    by (simp add: endsInPdf_def)
qed

section \<open>Domain normalization\<close>

lemma normalizeDomain_trim: "normalizeDomain d = normalizeDomain_spec (trim d)"
  by (simp add: normalizeDomain_def normalizeDomain_spec_def Let_def)

lemma trim_id: "d = [] \<or> (\<not> isWhitespace (hd d) \<and> \<not> isWhitespace (last d)) \<Longrightarrow> trim d = d"
proof (cases "d = []")
  case True
  then show ?thesis by (simp add: trim_def)
next
  case False
  assume "d = [] \<or> (\<not> isWhitespace (hd d) \<and> \<not> isWhitespace (last d))"
  with False have h: "\<not> isWhitespace (hd d)" and l: "\<not> isWhitespace (last d)" by auto
  from False h have 1: "dropWhile isWhitespace d = d" by (cases d) auto
  from False l have 2: "dropWhile isWhitespace (rev d) = rev d" by (cases d rule: rev_cases) auto
  show ?thesis by (simp add: trim_def 1 2)
qed

text \<open>
  C7, as stated: for every input string, \<open>normalizeDomain\<close> would return the input
  lowercased, with a leading \<open>http://\<close> or \<open>https://\<close> stripped, a leading \<open>www.\<close>
  stripped, then cut at the first \<open>/\<close> and the first \<open>:\<close>. The code trims the input
  first, so the two differ on an input with whitespace around it: \<open>" Example.com"\<close>
  gives \<open>"example.com"\<close>, where the description gives \<open>" example.com"\<close>.
\<close>

theorem normalizeDomain_counterexample:
  "normalizeDomain '' Example.com'' = ''example.com'' \<and>
   normalizeDomain_spec '' Example.com'' = '' example.com'' \<and>
   normalizeDomain '' Example.com'' \<noteq> normalizeDomain_spec '' Example.com''"
  by code_simp

text \<open>
  C7, amended: for every input string, \<open>normalizeDomain\<close> returns the input trimmed of
  leading and trailing whitespace and lowercased, with a leading \<open>http://\<close> or
  \<open>https://\<close> stripped, a leading \<open>www.\<close> stripped, then cut at the first \<open>/\<close> and at
  the first \<open>:\<close>. On an input without whitespace at either end it is the function of
  the description as it stands.
\<close>

theorem normalizeDomain_refines:
  "normalizeDomain d = normalizeDomain_spec (trim d) \<and>
   (d = [] \<or> (\<not> isWhitespace (hd d) \<and> \<not> isWhitespace (last d)) \<longrightarrow>
      normalizeDomain d = normalizeDomain_spec d)"
  using trim_id [of d] by (auto simp: normalizeDomain_trim)

theorem normalizeDomain_refines_witness:
  "(\<not> isWhitespace (hd ''HTTPS://www.Example.com:8080/path'') \<and>
    \<not> isWhitespace (last ''HTTPS://www.Example.com:8080/path'')) \<and>
   normalizeDomain ''HTTPS://www.Example.com:8080/path'' =
     normalizeDomain_spec ''HTTPS://www.Example.com:8080/path'' \<and>
   normalizeDomain ''HTTPS://www.Example.com:8080/path'' = ''example.com''"
proof -
  have a: "normalizeDomain ''HTTPS://www.Example.com:8080/path'' = ''example.com''" by code_simp
  have h: "\<not> isWhitespace (hd ''HTTPS://www.Example.com:8080/path'') \<and>
           \<not> isWhitespace (last ''HTTPS://www.Example.com:8080/path'')" by code_simp
  from normalizeDomain_refines [of "''HTTPS://www.Example.com:8080/path''"] h
  have "normalizeDomain ''HTTPS://www.Example.com:8080/path'' =
          normalizeDomain_spec ''HTTPS://www.Example.com:8080/path''" by blast
  with a h show ?thesis by blast
qed

section \<open>Domain-filtered query\<close>

text \<open>
  C3: for every query \<open>q\<close>, list of domains \<open>ds\<close> and threshold \<open>k\<close>,
  \<open>buildDomainFilteredQuery(q, ds, k)\<close> normalizes the domains and drops the empty
  entries; if the number of entries left exceeds \<open>k\<close> it returns \<open>q\<close> unchanged;
  otherwise it appends \<open>" site:<d>"\<close> for a single domain and
  \<open>" (site:<d1> OR site:<d2> OR ...)"\<close> for several, in the given order (and returns \<open>q\<close>
  when no entry is left). In particular
  \<open>buildDomainFilteredQuery("cats", ["https://Example.com/", "www.example.org"], 10)\<close> is
  \<open>"cats (site:example.com OR site:example.org)"\<close>.
\<close>

theorem buildDomainFilteredQuery_spec:
  "(let nd = filter (\<lambda>d. d \<noteq> []) (map normalizeDomain ds)
    in (num_gt (Fin (of_nat (length nd))) k \<longrightarrow> buildDomainFilteredQuery q ds k = q) \<and>
       (\<not> num_gt (Fin (of_nat (length nd))) k \<longrightarrow>
          (nd = [] \<longrightarrow> buildDomainFilteredQuery q ds k = q) \<and>
          (\<forall>d. nd = [d] \<longrightarrow> buildDomainFilteredQuery q ds k = q @ '' site:'' @ d) \<and>
          (2 \<le> length nd \<longrightarrow>
             buildDomainFilteredQuery q ds k =
               q @ '' ('' @ join '' OR '' (map siteOperator nd) @ '')''))) \<and>
   siteOperator x = ''site:'' @ x \<and>
   buildDomainFilteredQuery ''cats'' [''https://Example.com/'', ''www.example.org''] (Fin 10) =
     ''cats (site:example.com OR site:example.org)''"
proof -
  have ex: "buildDomainFilteredQuery ''cats'' [''https://Example.com/'', ''www.example.org''] (Fin 10) =
     ''cats (site:example.com OR site:example.org)''" by code_simp
  let ?nd = "filter (\<lambda>d. d \<noteq> []) (map normalizeDomain ds)"
  have 1: "buildDomainFilteredQuery q ds k = q" if "num_gt (Fin (of_nat (length ?nd))) k"
    using that by (auto simp: buildDomainFilteredQuery_def Let_def)
  have 2: "buildDomainFilteredQuery q ds k = q" if "?nd = []"
    using that by (auto simp: buildDomainFilteredQuery_def Let_def)
  have 3: "buildDomainFilteredQuery q ds k = q @ '' site:'' @ d"
    if "\<not> num_gt (Fin (of_nat (length ?nd))) k" "?nd = [d]" for d
  proof -
    from that(2) have "ds \<noteq> []" by auto
    with that show ?thesis by (simp add: buildDomainFilteredQuery_def Let_def siteOperator_def)
  qed
  have 4: "buildDomainFilteredQuery q ds k =
             q @ '' ('' @ join '' OR '' (map siteOperator ?nd) @ '')''"
    if "\<not> num_gt (Fin (of_nat (length ?nd))) k" "2 \<le> length ?nd"
  proof -
    from that(2) have "ds \<noteq> []" by auto
    moreover from that(2) obtain a b r where "?nd = a # b # r"
      by (cases ?nd; cases "tl ?nd") auto
    ultimately show ?thesis using that(1) by (simp add: buildDomainFilteredQuery_def Let_def)
  qed
  have 5: "siteOperator x = ''site:'' @ x" by (simp add: siteOperator_def)
  show ?thesis unfolding Let_def using ex 1 2 3 4 5 by blast
qed

theorem buildDomainFilteredQuery_spec_witness:
  "filter (\<lambda>d. d \<noteq> []) (map normalizeDomain [''https://'', ''GitHub.com/about'']) = [''github.com''] \<and>
   \<not> num_gt (Fin (of_nat (length [''github.com'']))) (Fin 10) \<and>
   buildDomainFilteredQuery ''cats'' [''https://'', ''GitHub.com/about''] (Fin 10) = ''cats site:github.com''"
proof -
  have a: "filter (\<lambda>d. d \<noteq> []) (map normalizeDomain [''https://'', ''GitHub.com/about'']) = [''github.com'']"
    by code_simp
  have b: "\<not> num_gt (Fin (of_nat (length [''github.com'']))) (Fin 10)" by (simp add: num_gt_def)
  from buildDomainFilteredQuery_spec [of "[''https://'', ''GitHub.com/about'']" "Fin 10" "''cats''"]
  show ?thesis unfolding Let_def a using a b by simp
qed

section \<open>Validation of the requested count\<close>

lemma in_range_iff:
  "(n \<noteq> NaN \<and> \<not> num_lt n (Fin 1) \<and> \<not> num_gt n (Fin 10)) \<longleftrightarrow> (\<exists>x. n = Fin x \<and> 1 \<le> x \<and> x \<le> 10)"
  by (cases n) (auto simp: num_gt_def)

lemma validateLimit_requested:
  "validateLimit (withDefault raw (JNumber (Fin 5))) =
     (case requestedCount raw of
        Some n \<Rightarrow> if \<exists>x. n = Fin x \<and> 1 \<le> x \<and> x \<le> 10 then Inr (Some n)
                  else Inl ''limit must be a number between 1 and 10''
      | None \<Rightarrow> Inl ''limit must be a number between 1 and 10'')"
proof -
  have n: "validateLimit (JNumber n) =
      (if \<exists>x. n = Fin x \<and> 1 \<le> x \<and> x \<le> 10 then Inr (Some n)
       else Inl ''limit must be a number between 1 and 10'')" for n
    using in_range_iff [of n] by (auto simp: validateLimit_def)
  have s: "validateLimit (JString s) = validateLimit (JNumber (parseInt10 s))" for s
    by (simp add: validateLimit_def)
  show ?thesis
  proof (cases raw)
    case JUndefined
    then show ?thesis by (simp add: withDefault_def requestedCount_def n)
  next
    case (JNumber m)
    then show ?thesis by (simp add: withDefault_def requestedCount_def n)
  next
    case (JString t)
    then show ?thesis by (simp add: withDefault_def requestedCount_def s n)
  qed (simp_all add: withDefault_def requestedCount_def validateLimit_def)
qed

lemma validateSearchRequest_Inr:
  assumes "validateSearchRequest body = Inr args"
  shows "validateLimit (withDefault (getProp body ''limit'') (JNumber (Fin 5))) = Inr (arg_limit args)"
    and "validateMaxContentLength (getProp body ''maxContentLength'') = Inr (arg_maxContentLength args)"
  using assms
  by (auto simp: validateSearchRequest_def Let_def split: option.splits sum.splits)

lemma validateSummariesRequest_Inr:
  assumes "validateSummariesRequest body = Inr opts"
  shows "validateLimit (withDefault (getProp body ''limit'') (JNumber (Fin 5))) = Inr (numResults opts)"
  using assms
  by (auto simp: validateSummariesRequest_def Let_def split: option.splits sum.splits)

lemma validateSearchRequest_limit_Inl:
  assumes "requiredString (getProp body ''query'') = Some q"
    and "validateLimit (withDefault (getProp body ''limit'') (JNumber (Fin 5))) = Inl msg"
  shows "validateSearchRequest body = Inl msg" "validateSummariesRequest body = Inl msg"
  using assms
  by (auto simp: validateSearchRequest_def validateSummariesRequest_def Let_def)

lemma validateMaxContentLength_Inl:
  "validateMaxContentLength v = Inl m \<Longrightarrow> m = ''maxContentLength must be a non-negative number''"
  by (auto simp: validateMaxContentLength_def Let_def split: if_splits json.splits)

lemma validateDomains_Inl:
  "validateDomains v = Inl m \<Longrightarrow> m = ''domains must be an array of strings''"
  by (auto simp: validateDomains_def Let_def split: if_splits json.splits)

lemma limit_accepted_not_rejected:
  assumes "validateLimit (withDefault (getProp body ''limit'') (JNumber (Fin 5))) = Inr r"
  shows "validateSearchRequest body \<noteq> Inl ''limit must be a number between 1 and 10''"
    and "validateSummariesRequest body \<noteq> Inl ''limit must be a number between 1 and 10''"
proof -
  show "validateSearchRequest body \<noteq> Inl ''limit must be a number between 1 and 10''"
  proof (cases "requiredString (getProp body ''query'')")
    case None
    then show ?thesis by (simp add: validateSearchRequest_def Let_def)
  next
    case (Some q)
    show ?thesis
    proof (cases "validateMaxContentLength (getProp body ''maxContentLength'')")
      case (Inl m)
      from validateMaxContentLength_Inl [OF this] Inl Some assms show ?thesis
        by (simp add: validateSearchRequest_def Let_def)
    next
      case (Inr vm)
      show ?thesis
      proof (cases "validateDomains (getProp body ''domains'')")
        case (Inl m)
        from validateDomains_Inl [OF this] Inl Inr Some assms show ?thesis
          by (simp add: validateSearchRequest_def Let_def)
      next
        case (Inr vd)
        with \<open>validateMaxContentLength (getProp body ''maxContentLength'') = Inr vm\<close> Some assms
        show ?thesis by (simp add: validateSearchRequest_def Let_def)
      qed
    qed
  qed
  show "validateSummariesRequest body \<noteq> Inl ''limit must be a number between 1 and 10''"
  proof (cases "requiredString (getProp body ''query'')")
    case None
    then show ?thesis by (simp add: validateSummariesRequest_def Let_def)
  next
    case (Some q)
    show ?thesis
    proof (cases "validateDomains (getProp body ''domains'')")
      case (Inl m)
      from validateDomains_Inl [OF this] Inl Some assms show ?thesis
        by (simp add: validateSummariesRequest_def Let_def)
    next
      case (Inr vd)
      with Some assms show ?thesis by (simp add: validateSummariesRequest_def Let_def)
    qed
  qed
qed

lemma api_search_BadRequest:
  "api_search handleWebSearch body = BadRequest m \<longleftrightarrow> validateSearchRequest body = Inl m"
  by (auto simp: api_search_def split: sum.splits)

lemma api_search_summaries_BadRequest:
  "api_search_summaries search searchTime body = BadRequest m \<longleftrightarrow> validateSummariesRequest body = Inl m"
  by (auto simp: api_search_summaries_def Let_def split: sum.splits)

text \<open>
  C1, as stated: an out-of-range count would be brought into [1,10] and the request
  served. Both routes answer 400 instead: with \<open>limit\<close> 11, or 0, the validation stops
  with the message \<open>limit must be a number between 1 and 10\<close>.
\<close>

theorem limit_clamped_counterexample:
  "requestedCount (getProp (JObject [(''query'', JString ''cats''), (''limit'', JNumber (Fin 11))]) ''limit'') =
     Some (Fin 11) \<and>
   validateSearchRequest (JObject [(''query'', JString ''cats''), (''limit'', JNumber (Fin 11))]) =
     Inl ''limit must be a number between 1 and 10'' \<and>
   validateSummariesRequest (JObject [(''query'', JString ''cats''), (''limit'', JNumber (Fin 11))]) =
     Inl ''limit must be a number between 1 and 10'' \<and>
   api_search exampleWebSearch (JObject [(''query'', JString ''cats''), (''limit'', JNumber (Fin 11))]) =
     BadRequest ''limit must be a number between 1 and 10'' \<and>
   validateSearchRequest (JObject [(''query'', JString ''cats''), (''limit'', JNumber (Fin 0))]) =
     Inl ''limit must be a number between 1 and 10''"
  by code_simp

text \<open>
  C1, amended: for \<open>/api/search\<close> and \<open>/api/search/summaries\<close> the requested count is
  validated against [1,10], not clamped. Whenever the request passes validation, the
  count handed on (\<open>limit\<close> of the arguments of \<open>handleWebSearch\<close>, \<open>numResults\<close>
  of the search options) is the requested count itself and lies in [1,10]. A request with
  a valid query whose requested count is not a number in [1,10] is rejected with status
  400 and the message \<open>limit must be a number between 1 and 10\<close>. A requested count
  that is a number in [1,10], the bounds 1 and 10 included, passes the check of the count
  and is never answered with that message; when the other fields are valid too the
  request is served: the validated arguments carry that count, and the route answers 200
  whenever the search returns.
\<close>

theorem limit_validated_not_clamped:
  "(validateSearchRequest body = Inr args \<longrightarrow>
      (\<exists>x. arg_limit args = Some (Fin x) \<and> 1 \<le> x \<and> x \<le> 10 \<and>
           requestedCount (getProp body ''limit'') = Some (Fin x))) \<and>
   (validateSummariesRequest body = Inr opts \<longrightarrow>
      (\<exists>x. numResults opts = Some (Fin x) \<and> 1 \<le> x \<and> x \<le> 10 \<and>
           requestedCount (getProp body ''limit'') = Some (Fin x))) \<and>
   (requiredString (getProp body ''query'') \<noteq> None \<and>
    \<not> (\<exists>x. requestedCount (getProp body ''limit'') = Some (Fin x) \<and> 1 \<le> x \<and> x \<le> 10) \<longrightarrow>
      validateSearchRequest body = Inl ''limit must be a number between 1 and 10'' \<and>
      validateSummariesRequest body = Inl ''limit must be a number between 1 and 10'' \<and>
      api_search handleWebSearch body = BadRequest ''limit must be a number between 1 and 10'' \<and>
      api_search_summaries search searchTime body = BadRequest ''limit must be a number between 1 and 10'') \<and>
   ((\<exists>x. requestedCount (getProp body ''limit'') = Some (Fin x) \<and> 1 \<le> x \<and> x \<le> 10) \<longrightarrow>
      validateLimit (withDefault (getProp body ''limit'') (JNumber (Fin 5))) =
        Inr (requestedCount (getProp body ''limit'')) \<and>
      validateSearchRequest body \<noteq> Inl ''limit must be a number between 1 and 10'' \<and>
      validateSummariesRequest body \<noteq> Inl ''limit must be a number between 1 and 10'' \<and>
      api_search handleWebSearch body \<noteq> BadRequest ''limit must be a number between 1 and 10'' \<and>
      api_search_summaries search searchTime body \<noteq> BadRequest ''limit must be a number between 1 and 10'') \<and>
   (requiredString (getProp body ''query'') = Some q \<and>
    requestedCount (getProp body ''limit'') = Some (Fin c) \<and> 1 \<le> c \<and> c \<le> 10 \<and>
    validateMaxContentLength (getProp body ''maxContentLength'') = Inr vm \<and>
    validateDomains (getProp body ''domains'') = Inr vd \<longrightarrow>
      validateSearchRequest body =
        Inr \<lparr>arg_query = Some q, arg_keywords = None, arg_limit = Some (Fin c),
             arg_includeContent =
               validateIncludeContent (withDefault (getProp body ''includeContent'') (JBool True)),
             arg_maxContentLength = vm, arg_domains = vd\<rparr> \<and>
      (\<forall>result.
         handleWebSearch
           \<lparr>arg_query = Some q, arg_keywords = None, arg_limit = Some (Fin c),
            arg_includeContent =
              validateIncludeContent (withDefault (getProp body ''includeContent'') (JBool True)),
            arg_maxContentLength = vm, arg_domains = vd\<rparr> = Inr result \<longrightarrow>
         (\<exists>resp. api_search handleWebSearch body = Ok200 resp \<and>
            sr_results resp = map (formatResult vm) (results result)))) \<and>
   (requiredString (getProp body ''query'') = Some q \<and>
    requestedCount (getProp body ''limit'') = Some (Fin c) \<and> 1 \<le> c \<and> c \<le> 10 \<and>
    validateDomains (getProp body ''domains'') = Inr vd \<longrightarrow>
      validateSummariesRequest body =
        Inr \<lparr>so_query = q, numResults = Some (Fin c), so_timeout = None, so_domains = vd\<rparr> \<and>
      (\<forall>searchResponse.
         search \<lparr>so_query = q, numResults = Some (Fin c), so_timeout = None, so_domains = vd\<rparr> =
           Inr searchResponse \<longrightarrow>
         (\<exists>resp. api_search_summaries search searchTime body = Ok200 resp \<and>
            length (ss_results resp) = length (md_results searchResponse))))"
proof -
  let ?raw = "getProp body ''limit''"
  let ?l = "withDefault ?raw (JNumber (Fin 5))"
  let ?msg = "''limit must be a number between 1 and 10''"
  have A: "\<exists>x. r = Some (Fin x) \<and> 1 \<le> x \<and> x \<le> 10 \<and> requestedCount ?raw = Some (Fin x)"
    if v: "validateLimit ?l = Inr r" for r
    using v unfolding validateLimit_requested [of ?raw]
    by (cases "requestedCount ?raw") (auto split: if_splits)
  have B: "validateSearchRequest body = Inl ?msg \<and>
      validateSummariesRequest body = Inl ?msg \<and>
      api_search handleWebSearch body = BadRequest ?msg \<and>
      api_search_summaries search searchTime body = BadRequest ?msg"
    if q: "requiredString (getProp body ''query'') \<noteq> None"
      and o: "\<not> (\<exists>x. requestedCount ?raw = Some (Fin x) \<and> 1 \<le> x \<and> x \<le> 10)"
  proof -
    from q obtain qs where qs: "requiredString (getProp body ''query'') = Some qs" by auto
    from o have "validateLimit ?l = Inl ?msg"
      unfolding validateLimit_requested [of ?raw]
      by (cases "requestedCount ?raw") auto
    from validateSearchRequest_limit_Inl [OF qs this]
    show ?thesis by (simp add: api_search_def api_search_summaries_def)
  qed
  have P: "validateLimit ?l = Inr (Some (Fin x))"
    if "requestedCount ?raw = Some (Fin x)" "1 \<le> x" "x \<le> 10" for x
    using that unfolding validateLimit_requested [of ?raw] by simp
  have C: "validateLimit ?l = Inr (requestedCount ?raw) \<and>
      validateSearchRequest body \<noteq> Inl ?msg \<and>
      validateSummariesRequest body \<noteq> Inl ?msg \<and>
      api_search handleWebSearch body \<noteq> BadRequest ?msg \<and>
      api_search_summaries search searchTime body \<noteq> BadRequest ?msg"
    if "\<exists>x. requestedCount ?raw = Some (Fin x) \<and> 1 \<le> x \<and> x \<le> 10"
  proof -
    from that obtain x where x: "requestedCount ?raw = Some (Fin x)" "1 \<le> x" "x \<le> 10" by blast
    from P [OF x] have p: "validateLimit ?l = Inr (Some (Fin x))" .
    from limit_accepted_not_rejected [OF p] p x(1) show ?thesis
      by (simp add: api_search_BadRequest api_search_summaries_BadRequest)
  qed
  have D: "validateSearchRequest body =
        Inr \<lparr>arg_query = Some q, arg_keywords = None, arg_limit = Some (Fin c),
             arg_includeContent =
               validateIncludeContent (withDefault (getProp body ''includeContent'') (JBool True)),
             arg_maxContentLength = vm, arg_domains = vd\<rparr> \<and>
      (\<forall>result.
         handleWebSearch
           \<lparr>arg_query = Some q, arg_keywords = None, arg_limit = Some (Fin c),
            arg_includeContent =
              validateIncludeContent (withDefault (getProp body ''includeContent'') (JBool True)),
            arg_maxContentLength = vm, arg_domains = vd\<rparr> = Inr result \<longrightarrow>
         (\<exists>resp. api_search handleWebSearch body = Ok200 resp \<and>
            sr_results resp = map (formatResult vm) (results result)))"
    if h: "requiredString (getProp body ''query'') = Some q"
      "requestedCount ?raw = Some (Fin c)" "1 \<le> c" "c \<le> 10"
      "validateMaxContentLength (getProp body ''maxContentLength'') = Inr vm"
      "validateDomains (getProp body ''domains'') = Inr vd"
  proof -
    from P [OF h(2,3,4)] have p: "validateLimit ?l = Inr (Some (Fin c))" .
    have v: "validateSearchRequest body =
        Inr \<lparr>arg_query = Some q, arg_keywords = None, arg_limit = Some (Fin c),
             arg_includeContent =
               validateIncludeContent (withDefault (getProp body ''includeContent'') (JBool True)),
             arg_maxContentLength = vm, arg_domains = vd\<rparr>"
      using h(1,5,6) p by (simp add: validateSearchRequest_def Let_def)
    show ?thesis unfolding v by (simp add: api_search_def v)
  qed
  have E: "validateSummariesRequest body =
        Inr \<lparr>so_query = q, numResults = Some (Fin c), so_timeout = None, so_domains = vd\<rparr> \<and>
      (\<forall>searchResponse.
         search \<lparr>so_query = q, numResults = Some (Fin c), so_timeout = None, so_domains = vd\<rparr> =
           Inr searchResponse \<longrightarrow>
         (\<exists>resp. api_search_summaries search searchTime body = Ok200 resp \<and>
            length (ss_results resp) = length (md_results searchResponse)))"
    if h: "requiredString (getProp body ''query'') = Some q"
      "requestedCount ?raw = Some (Fin c)" "1 \<le> c" "c \<le> 10"
      "validateDomains (getProp body ''domains'') = Inr vd"
  proof -
    from P [OF h(2,3,4)] have p: "validateLimit ?l = Inr (Some (Fin c))" .
    have v: "validateSummariesRequest body =
        Inr \<lparr>so_query = q, numResults = Some (Fin c), so_timeout = None, so_domains = vd\<rparr>"
      using h(1,5) p by (simp add: validateSummariesRequest_def Let_def)
    show ?thesis unfolding v by (simp add: api_search_summaries_def v Let_def)
  qed
  have 1: "validateSearchRequest body = Inr args \<longrightarrow>
      (\<exists>x. arg_limit args = Some (Fin x) \<and> 1 \<le> x \<and> x \<le> 10 \<and>
           requestedCount ?raw = Some (Fin x))"
    using A [OF validateSearchRequest_Inr(1)] by blast
  have 2: "validateSummariesRequest body = Inr opts \<longrightarrow>
      (\<exists>x. numResults opts = Some (Fin x) \<and> 1 \<le> x \<and> x \<le> 10 \<and>
           requestedCount ?raw = Some (Fin x))"
    using A [OF validateSummariesRequest_Inr] by blast
  show ?thesis
    apply (intro conjI)
    subgoal by (rule 1)
    subgoal by (rule 2)
    subgoal using B by blast
    subgoal using C by blast
    subgoal using D by blast
    subgoal using E by blast
    done
qed

theorem limit_validated_not_clamped_witness:
  "validateSearchRequest (JObject [(''query'', JString ''cats''), (''limit'', JString ''7'')]) =
     Inr \<lparr>arg_query = Some ''cats'', arg_keywords = None, arg_limit = Some (Fin 7),
          arg_includeContent = Some True, arg_maxContentLength = None, arg_domains = None\<rparr> \<and>
   validateSummariesRequest (JObject [(''query'', JString ''cats''), (''limit'', JString ''7'')]) =
     Inr \<lparr>so_query = ''cats'', numResults = Some (Fin 7), so_timeout = None, so_domains = None\<rparr> \<and>
   requestedCount (getProp (JObject [(''query'', JString ''cats''), (''limit'', JString ''7'')]) ''limit'') =
     Some (Fin 7) \<and>
   validateSearchRequest (JObject [(''query'', JString ''cats''), (''limit'', JNumber (Fin 1))]) =
     Inr \<lparr>arg_query = Some ''cats'', arg_keywords = None, arg_limit = Some (Fin 1),
          arg_includeContent = Some True, arg_maxContentLength = None, arg_domains = None\<rparr> \<and>
   validateSummariesRequest (JObject [(''query'', JString ''cats''), (''limit'', JNumber (Fin 10))]) =
     Inr \<lparr>so_query = ''cats'', numResults = Some (Fin 10), so_timeout = None, so_domains = None\<rparr> \<and>
   api_search exampleWebSearch (JObject [(''query'', JString ''cats''), (''limit'', JNumber (Fin 10))]) \<noteq>
     BadRequest ''limit must be a number between 1 and 10''"
proof -
  let ?b = "JObject [(''query'', JString ''cats''), (''limit'', JString ''7'')]"
  let ?a = "\<lparr>arg_query = Some ''cats'', arg_keywords = None, arg_limit = Some (Fin 7),
          arg_includeContent = Some True, arg_maxContentLength = None, arg_domains = None\<rparr>"
  let ?o = "\<lparr>so_query = ''cats'', numResults = Some (Fin 7), so_timeout = None, so_domains = None\<rparr>"
  let ?b1 = "JObject [(''query'', JString ''cats''), (''limit'', JNumber (Fin 1))]"
  let ?b10 = "JObject [(''query'', JString ''cats''), (''limit'', JNumber (Fin 10))]"
  have a: "validateSearchRequest ?b = Inr ?a" by code_simp
  have b: "validateSummariesRequest ?b = Inr ?o" by code_simp
  note t7 = limit_validated_not_clamped [where body = ?b and args = ?a]
  from t7 [THEN conjunct1, THEN mp, OF a]
  obtain x where "arg_limit ?a = Some (Fin x)" "requestedCount (getProp ?b ''limit'') = Some (Fin x)"
    by blast
  then have 7: "requestedCount (getProp ?b ''limit'') = Some (Fin 7)" by simp
  have q1: "requiredString (getProp ?b1 ''query'') = Some ''cats''" by code_simp
  have r1: "requestedCount (getProp ?b1 ''limit'') = Some (Fin 1)" by code_simp
  have m1: "validateMaxContentLength (getProp ?b1 ''maxContentLength'') = Inr None" by code_simp
  have d1: "validateDomains (getProp ?b1 ''domains'') = Inr None" by code_simp
  have i1: "validateIncludeContent (withDefault (getProp ?b1 ''includeContent'') (JBool True)) = Some True"
    by code_simp
  have h1: "requiredString (getProp ?b1 ''query'') = Some ''cats'' \<and>
    requestedCount (getProp ?b1 ''limit'') = Some (Fin 1) \<and> (1::rat) \<le> 1 \<and> (1::rat) \<le> 10 \<and>
    validateMaxContentLength (getProp ?b1 ''maxContentLength'') = Inr None \<and>
    validateDomains (getProp ?b1 ''domains'') = Inr None"
    using q1 r1 m1 d1 by simp
  note t1 = limit_validated_not_clamped [where body = ?b1 and q = "''cats''" and c = 1
      and vm = None and vd = None]
  from t1 [THEN conjunct2, THEN conjunct2, THEN conjunct2, THEN conjunct2, THEN conjunct1,
      THEN mp, OF h1, THEN conjunct1]
  have s1: "validateSearchRequest ?b1 =
     Inr \<lparr>arg_query = Some ''cats'', arg_keywords = None, arg_limit = Some (Fin 1),
          arg_includeContent = Some True, arg_maxContentLength = None, arg_domains = None\<rparr>"
    unfolding i1 .
  have q10: "requiredString (getProp ?b10 ''query'') = Some ''cats''" by code_simp
  have r10: "requestedCount (getProp ?b10 ''limit'') = Some (Fin 10)" by code_simp
  have d10: "validateDomains (getProp ?b10 ''domains'') = Inr None" by code_simp
  have h10: "requiredString (getProp ?b10 ''query'') = Some ''cats'' \<and>
    requestedCount (getProp ?b10 ''limit'') = Some (Fin 10) \<and> (1::rat) \<le> 10 \<and> (10::rat) \<le> 10 \<and>
    validateDomains (getProp ?b10 ''domains'') = Inr None"
    using q10 r10 d10 by simp
  note t10 = limit_validated_not_clamped [where body = ?b10 and q = "''cats''" and c = 10
      and vd = None and handleWebSearch = exampleWebSearch]
  from t10 [THEN conjunct2, THEN conjunct2, THEN conjunct2, THEN conjunct2, THEN conjunct2,
      THEN mp, OF h10, THEN conjunct1]
  have s10: "validateSummariesRequest ?b10 =
     Inr \<lparr>so_query = ''cats'', numResults = Some (Fin 10), so_timeout = None, so_domains = None\<rparr>" .
  have e10: "\<exists>x. requestedCount (getProp ?b10 ''limit'') = Some (Fin x) \<and> 1 \<le> x \<and> x \<le> 10"
    using r10 by simp
  note n10 = t10 [THEN conjunct2, THEN conjunct2, THEN conjunct2, THEN conjunct1, THEN mp, OF e10,
      THEN conjunct2, THEN conjunct2, THEN conjunct2, THEN conjunct1]
  show ?thesis
    apply (intro conjI)
    subgoal by (rule a)
    subgoal by (rule b)
    subgoal by (rule 7)
    subgoal by (rule s1)
    subgoal by (rule s10)
    subgoal by (rule n10)
    done
qed

section \<open>Response formatting\<close>

lemma trim_Nil: "trim [] = []"
  by (simp add: trim_def)

lemma substringTo_simps [simp]:
  "substringTo s None = s"
  "substringTo s (Some n) = substring0 s n"
  by (simp_all add: substringTo_def)

lemma api_search_Ok200:
  assumes "api_search handleWebSearch body = Ok200 resp"
  shows "\<exists>args result. validateSearchRequest body = Inr args \<and> handleWebSearch args = Inr result \<and>
           sr_results resp = map (formatResult (arg_maxContentLength args)) (results result)"
  using assms by (auto simp: api_search_def split: sum.splits)

lemma api_search_served:
  assumes "validateSearchRequest body = Inr args" "handleWebSearch args = Inr result"
  shows "\<exists>resp. api_search handleWebSearch body = Ok200 resp \<and>
           sr_results resp = map (formatResult (arg_maxContentLength args)) (results result)"
  using assms by (simp add: api_search_def)

lemma validateMaxContentLength_Some:
  assumes "validateMaxContentLength raw = Inr (Some m)"
  shows "m = PosInf \<or> (\<exists>x. m = Fin x \<and> 0 < x)"
proof -
  let ?v = "case raw of JString s \<Rightarrow> JNumber (parseInt10 s) | _ \<Rightarrow> raw"
  from assms have u: "raw \<noteq> JUndefined" by (auto simp: validateMaxContentLength_def)
  with assms obtain n where v: "?v = JNumber n"
    by (cases ?v) (auto simp: validateMaxContentLength_def Let_def)
  with assms u have "n \<noteq> NaN" "\<not> num_lt n (Fin 0)" "n \<noteq> Fin 0" "m = n"
    by (auto simp: validateMaxContentLength_def Let_def split: if_splits)
  then show ?thesis by (cases n) auto
qed

lemma exceedsLimit_Fin:
  "exceedsLimit (Some (Fin x)) content \<longleftrightarrow> 0 < x \<and> x < of_nat (length content)"
  by (auto simp: exceedsLimit_def num_truthy_def num_gt_def lengthOf_def)

lemma take_floor_length:
  assumes "0 < x" "x < of_nat (length content)"
  shows "length (take (nat \<lfloor>x\<rfloor>) content) = nat \<lfloor>x\<rfloor>"
proof -
  from assms(2) have "\<lfloor>x\<rfloor> < int (length content)" by (simp add: floor_less_iff)
  then show ?thesis by simp
qed

lemma take_floor_exact:
  assumes "0 < x" "x < of_nat (length content)" "x = of_int \<lfloor>x\<rfloor>"
  shows "lengthOf (take (nat \<lfloor>x\<rfloor>) content) = Fin x"
proof -
  from assms(1) have nn: "0 \<le> \<lfloor>x\<rfloor>" by simp
  have "rat_of_nat (nat \<lfloor>x\<rfloor>) = of_int \<lfloor>x\<rfloor>" using nn by simp
  with assms(3) have "rat_of_nat (nat \<lfloor>x\<rfloor>) = x" by simp
  with take_floor_length [OF assms(1,2)] show ?thesis by (simp add: lengthOf_def)
qed

lemma formatResult_fullContent:
  "fr_fullContent (formatResult v sr) =
     (if trim (fullContent sr) = [] then None
      else if exceedsLimit v (fullContent sr) then Some (substringTo (fullContent sr) v)
      else Some (fullContent sr))"
  by (auto simp: formatResult_def Let_def trim_Nil)

lemma formatResult_contentPreview:
  "fr_contentPreview (formatResult v sr) =
     (if trim (fullContent sr) = [] \<and> trim (contentPreview sr) \<noteq> []
      then Some (contentPreview sr) else None)"
  by (auto simp: formatResult_def Let_def trim_Nil)

lemma formatResult_contentTruncated:
  "fr_contentTruncated (formatResult v sr) =
     (if trim (fullContent sr) \<noteq> [] \<and> exceedsLimit v (fullContent sr) then Some True else None)"
  by (auto simp: formatResult_def Let_def trim_Nil)

lemma formatResult_error:
  "fr_error (formatResult v sr) =
     (if fetchStatus sr = FetchError \<and> (\<exists>e. error sr = Some e \<and> e \<noteq> []) then error sr else None)"
  by (auto simp: formatResult_def Let_def split: option.splits)


lemma api_content_served:
  assumes "requiredString (getProp body ''url'') = Some u" "parseURL u = Some urlObj"
    "validateMaxContentLength (getProp body ''maxContentLength'') = Inr v"
    "extractContent u v = Inr content"
  shows "\<exists>resp. api_content parseURL extractContent now body = Ok200 resp \<and>
           cr_content resp = (if exceedsLimit v content then substringTo content v else content) \<and>
           cr_contentTruncated resp = contentTruncatedValue v content \<and>
           cr_originalLength resp = lengthOf content"
  using assms by (simp add: api_content_def Let_def)

subsection \<open>Truncation to maxContentLength\<close>

text \<open>
  C5, as stated: content longer than a positive \<open>maxContentLength\<close> would always come
  back cut to exactly \<open>maxContentLength\<close> characters. Validation accepts any
  non-negative number, and \<open>substring\<close> truncates it: with \<open>maxContentLength\<close> 2.5 the
  content \<open>"abcdef"\<close> comes back as \<open>"ab"\<close>. And \<open>/api/search\<close> returns no
  \<open>fullContent\<close> at all for content that is only whitespace: with \<open>maxContentLength\<close>
  1 and the content of three spaces the field is absent.
\<close>

theorem truncation_counterexample:
  "validateMaxContentLength (JNumber (Fin (5 / 2))) = Inr (Some (Fin (5 / 2))) \<and>
   num_gt (lengthOf (fullContent pageResult)) (Fin (5 / 2)) \<and>
   fr_fullContent (formatResult (Some (Fin (5 / 2))) pageResult) = Some ''ab'' \<and>
   lengthOf ''ab'' \<noteq> Fin (5 / 2) \<and>
   validateMaxContentLength (JNumber (Fin 1)) = Inr (Some (Fin 1)) \<and>
   num_gt (lengthOf (fullContent (pageResult\<lparr>fullContent := ''   ''\<rparr>))) (Fin 1) \<and>
   fr_fullContent (formatResult (Some (Fin 1)) (pageResult\<lparr>fullContent := ''   ''\<rparr>)) = None"
  by code_simp

text \<open>
  C5, amended: when \<open>maxContentLength\<close> is supplied and positive and the full content
  is longer than it, the response formatting of the API cuts the returned content to its
  first \<open>floor(maxContentLength)\<close> characters, which is exactly \<open>maxContentLength\<close>
  characters when that is a whole number, and marks it as truncated. This holds for every
  result of a \<open>/api/search\<close> response whose full content is not only whitespace, and
  for the content of the \<open>/api/content\<close> response.
\<close>

theorem truncation_by_caller:
  "(validateSearchRequest body = Inr args \<and> arg_maxContentLength args = Some m \<and>
    handleWebSearch args = Inr result \<and> i < length (results result) \<and>
    trim (fullContent (results result ! i)) \<noteq> [] \<and>
    num_gt (lengthOf (fullContent (results result ! i))) m \<longrightarrow>
      (\<exists>resp x. api_search handleWebSearch body = Ok200 resp \<and> m = Fin x \<and> 0 < x \<and>
         fr_fullContent (sr_results resp ! i) = Some (take (nat \<lfloor>x\<rfloor>) (fullContent (results result ! i))) \<and>
         length (take (nat \<lfloor>x\<rfloor>) (fullContent (results result ! i))) = nat \<lfloor>x\<rfloor> \<and>
         (x = of_int \<lfloor>x\<rfloor> \<longrightarrow> lengthOf (take (nat \<lfloor>x\<rfloor>) (fullContent (results result ! i))) = m) \<and>
         fr_contentTruncated (sr_results resp ! i) = Some True)) \<and>
   (requiredString (getProp body ''url'') = Some u \<and> parseURL u = Some urlObj \<and>
    validateMaxContentLength (getProp body ''maxContentLength'') = Inr (Some m) \<and>
    extractContent u (Some m) = Inr content \<and> num_gt (lengthOf content) m \<longrightarrow>
      (\<exists>resp x. api_content parseURL extractContent now body = Ok200 resp \<and> m = Fin x \<and> 0 < x \<and>
         cr_content resp = take (nat \<lfloor>x\<rfloor>) content \<and>
         length (take (nat \<lfloor>x\<rfloor>) content) = nat \<lfloor>x\<rfloor> \<and>
         (x = of_int \<lfloor>x\<rfloor> \<longrightarrow> lengthOf (take (nat \<lfloor>x\<rfloor>) content) = m) \<and>
         cr_contentTruncated resp = JBool True))"
proof (intro conjI impI)
  assume a: "validateSearchRequest body = Inr args \<and> arg_maxContentLength args = Some m \<and>
    handleWebSearch args = Inr result \<and> i < length (results result) \<and>
    trim (fullContent (results result ! i)) \<noteq> [] \<and>
    num_gt (lengthOf (fullContent (results result ! i))) m"
  let ?c = "fullContent (results result ! i)"
  from a validateSearchRequest_Inr(2) [of body args]
  have v: "validateMaxContentLength (getProp body ''maxContentLength'') = Inr (Some m)" by simp
  from a have gt: "num_gt (lengthOf ?c) m" by simp
  from validateMaxContentLength_Some [OF v] gt obtain x where x: "m = Fin x" "0 < x"
    by (auto simp: num_gt_def lengthOf_def)
  with gt have lt: "x < of_nat (length ?c)" by (simp add: num_gt_def lengthOf_def)
  from a api_search_served [of body args handleWebSearch result]
  obtain resp where r: "api_search handleWebSearch body = Ok200 resp"
    "sr_results resp = map (formatResult (Some m)) (results result)" by auto
  from a r(2) have ri: "sr_results resp ! i = formatResult (Some m) (results result ! i)" by simp
  have e: "exceedsLimit (Some m) ?c" using x lt by (simp add: exceedsLimit_Fin)
  have 1: "fr_fullContent (sr_results resp ! i) = Some (take (nat \<lfloor>x\<rfloor>) ?c)"
    using a e x by (simp add: ri formatResult_fullContent)
  have 2: "fr_contentTruncated (sr_results resp ! i) = Some True"
    using a e by (simp add: ri formatResult_contentTruncated)
  from r(1) x 1 2 take_floor_length [OF x(2) lt] take_floor_exact [OF x(2) lt]
  show "\<exists>resp x. api_search handleWebSearch body = Ok200 resp \<and> m = Fin x \<and> 0 < x \<and>
         fr_fullContent (sr_results resp ! i) = Some (take (nat \<lfloor>x\<rfloor>) ?c) \<and>
         length (take (nat \<lfloor>x\<rfloor>) ?c) = nat \<lfloor>x\<rfloor> \<and>
         (x = of_int \<lfloor>x\<rfloor> \<longrightarrow> lengthOf (take (nat \<lfloor>x\<rfloor>) ?c) = m) \<and>
         fr_contentTruncated (sr_results resp ! i) = Some True" by blast
next
  assume a: "requiredString (getProp body ''url'') = Some u \<and> parseURL u = Some urlObj \<and>
    validateMaxContentLength (getProp body ''maxContentLength'') = Inr (Some m) \<and>
    extractContent u (Some m) = Inr content \<and> num_gt (lengthOf content) m"
  then have v: "validateMaxContentLength (getProp body ''maxContentLength'') = Inr (Some m)"
    and gt: "num_gt (lengthOf content) m" by simp_all
  from validateMaxContentLength_Some [OF v] gt obtain x where x: "m = Fin x" "0 < x"
    by (auto simp: num_gt_def lengthOf_def)
  with gt have lt: "x < of_nat (length content)" by (simp add: num_gt_def lengthOf_def)
  have e: "exceedsLimit (Some m) content" using x lt by (simp add: exceedsLimit_Fin)
  from a api_content_served [of body u parseURL urlObj "Some m" extractContent content now]
  obtain resp where r: "api_content parseURL extractContent now body = Ok200 resp"
    "cr_content resp = (if exceedsLimit (Some m) content then substringTo content (Some m) else content)"
    "cr_contentTruncated resp = contentTruncatedValue (Some m) content" by auto
  have 1: "cr_content resp = take (nat \<lfloor>x\<rfloor>) content" using r(2) e x by simp
  have 2: "cr_contentTruncated resp = JBool True"
    using r(3) x lt by (simp add: contentTruncatedValue_def num_truthy_def num_gt_def lengthOf_def)
  from r(1) x 1 2 take_floor_length [OF x(2) lt] take_floor_exact [OF x(2) lt]
  show "\<exists>resp x. api_content parseURL extractContent now body = Ok200 resp \<and> m = Fin x \<and> 0 < x \<and>
         cr_content resp = take (nat \<lfloor>x\<rfloor>) content \<and>
         length (take (nat \<lfloor>x\<rfloor>) content) = nat \<lfloor>x\<rfloor> \<and>
         (x = of_int \<lfloor>x\<rfloor> \<longrightarrow> lengthOf (take (nat \<lfloor>x\<rfloor>) content) = m) \<and>
         cr_contentTruncated resp = JBool True" by blast
qed

theorem truncation_by_caller_witness:
  "(\<exists>resp. api_search exampleWebSearch
      (JObject [(''query'', JString ''cats''), (''url'', JString ''https://example.com/a''),
                (''maxContentLength'', JNumber (Fin 3))]) = Ok200 resp \<and>
      fr_fullContent (sr_results resp ! 0) = Some ''abc'') \<and>
   (\<exists>resp. api_content exampleParser exampleExtractor ''2024-01-01T00:00:00.000Z''
      (JObject [(''query'', JString ''cats''), (''url'', JString ''https://example.com/a''),
                (''maxContentLength'', JNumber (Fin 3))]) = Ok200 resp \<and>
      cr_content resp = ''abc'')"
proof -
  let ?b = "JObject [(''query'', JString ''cats''), (''url'', JString ''https://example.com/a''),
                (''maxContentLength'', JNumber (Fin 3))]"
  let ?a = "\<lparr>arg_query = Some ''cats'', arg_keywords = None, arg_limit = Some (Fin 5),
            arg_includeContent = Some True, arg_maxContentLength = Some (Fin 3), arg_domains = None\<rparr>"
  let ?r = "\<lparr>results = [pageResult, timedOutResult, failedResult], total_results = Fin 3,
          search_time_ms = Fin 12, out_query = ''cats'', status = None\<rparr>"
  let ?u = "\<lparr>protocol = ''https:'', hostname = ''example.com'', pathname = ''/a''\<rparr>"
  have 1: "validateSearchRequest ?b = Inr ?a" by code_simp
  have 2: "exampleWebSearch ?a = Inr ?r" by (simp add: exampleWebSearch_def)
  have 3: "trim (fullContent (results ?r ! 0)) \<noteq> []" by code_simp
  have 4: "num_gt (lengthOf (fullContent (results ?r ! 0))) (Fin 3)" by code_simp
  have 5: "requiredString (getProp ?b ''url'') = Some ''https://example.com/a''" by code_simp
  have 6: "exampleParser ''https://example.com/a'' = Some ?u" by code_simp
  have 7: "validateMaxContentLength (getProp ?b ''maxContentLength'') = Inr (Some (Fin 3))" by code_simp
  have 8: "exampleExtractor ''https://example.com/a'' (Some (Fin 3)) = Inr ''abcdef''"
    by (simp add: exampleExtractor_def)
  have 9: "num_gt (lengthOf ''abcdef'') (Fin 3)" by code_simp
  have 10: "fullContent (results ?r ! 0) = ''abcdef''" by (simp add: pageResult_def)
  note t = truncation_by_caller [where body = ?b and args = ?a and m = "Fin 3"
      and handleWebSearch = exampleWebSearch and result = ?r and i = 0
      and u = "''https://example.com/a''" and parseURL = exampleParser and urlObj = ?u
      and extractContent = exampleExtractor and content = "''abcdef''"
      and now = "''2024-01-01T00:00:00.000Z''"]
  have len: "0 < length (results ?r)" by simp
  from t 1 2 3 4 len
  have "\<exists>resp x. api_search exampleWebSearch ?b = Ok200 resp \<and> Fin 3 = Fin x \<and> 0 < x \<and>
         fr_fullContent (sr_results resp ! 0) = Some (take (nat \<lfloor>x\<rfloor>) (fullContent (results ?r ! 0)))"
    by (simp only: WebSearchToolInput.simps) blast
  then have A: "\<exists>resp. api_search exampleWebSearch ?b = Ok200 resp \<and>
      fr_fullContent (sr_results resp ! 0) = Some ''abc''"
    unfolding 10 by auto
  from t 5 6 7 8 9
  have "\<exists>resp x. api_content exampleParser exampleExtractor ''2024-01-01T00:00:00.000Z'' ?b = Ok200 resp \<and>
       Fin 3 = Fin x \<and> 0 < x \<and> cr_content resp = take (nat \<lfloor>x\<rfloor>) ''abcdef''"
    by blast
  then have B: "\<exists>resp. api_content exampleParser exampleExtractor ''2024-01-01T00:00:00.000Z'' ?b = Ok200 resp \<and>
      cr_content resp = ''abc''"
    by auto
  from A B show ?thesis by blast
qed

subsection \<open>fullContent and contentPreview\<close>

text \<open>
  C6: in every result record returned by \<open>/api/search\<close>, \<open>fullContent\<close> and
  \<open>contentPreview\<close> are mutually exclusive: at most one of the two fields is populated
  in the formatted response, never both.
\<close>

theorem fullContent_contentPreview_exclusive:
  "(fr_fullContent (formatResult v sr) = None \<or> fr_contentPreview (formatResult v sr) = None) \<and>
   (api_search handleWebSearch body = Ok200 resp \<longrightarrow>
      (\<forall>r \<in> set (sr_results resp). fr_fullContent r = None \<or> fr_contentPreview r = None))"
proof -
  have 1: "fr_fullContent (formatResult w x) = None \<or> fr_contentPreview (formatResult w x) = None" for w x
    by (simp add: formatResult_fullContent formatResult_contentPreview)
  have 2: "\<forall>r \<in> set (sr_results resp). fr_fullContent r = None \<or> fr_contentPreview r = None"
    if "api_search handleWebSearch body = Ok200 resp"
  proof -
    from api_search_Ok200 [OF that] obtain args result where
      "validateSearchRequest body = Inr args" "handleWebSearch args = Inr result"
      "sr_results resp = map (formatResult (arg_maxContentLength args)) (results result)" by blast
    with 1 show ?thesis by auto
  qed
  from 1 [of v sr] 2 show ?thesis by blast
qed

theorem fullContent_contentPreview_exclusive_witness:
  "api_search exampleWebSearch (JObject [(''query'', JString ''cats'')]) =
     Ok200 \<lparr>sr_success = True, sr_query = ''cats'', sr_total_results = Fin 3,
            sr_search_time_ms = Fin 12, sr_status = None,
            sr_results = map (formatResult None) [pageResult, timedOutResult, failedResult]\<rparr> \<and>
   fr_fullContent (formatResult None pageResult) = Some ''abcdef'' \<and>
   fr_contentPreview (formatResult None pageResult) = None \<and>
   fr_fullContent (formatResult None timedOutResult) = None \<and>
   fr_contentPreview (formatResult None timedOutResult) = Some ''snippet''"
proof -
  let ?b = "JObject [(''query'', JString ''cats'')]"
  let ?resp = "\<lparr>sr_success = True, sr_query = ''cats'', sr_total_results = Fin 3,
            sr_search_time_ms = Fin 12, sr_status = None,
            sr_results = map (formatResult None) [pageResult, timedOutResult, failedResult]\<rparr>"
  have a: "api_search exampleWebSearch ?b = Ok200 ?resp" by code_simp
  have b: "fr_fullContent (formatResult None pageResult) = Some ''abcdef''" by code_simp
  have c: "fr_contentPreview (formatResult None timedOutResult) = Some ''snippet''" by code_simp
  from fullContent_contentPreview_exclusive [of None pageResult exampleWebSearch ?b ?resp]
  have "api_search exampleWebSearch ?b = Ok200 ?resp \<longrightarrow>
      (\<forall>r \<in> set (sr_results ?resp). fr_fullContent r = None \<or> fr_contentPreview r = None)"
    by (rule conjunct2)
  from this a
  have "\<forall>r \<in> set (sr_results ?resp). fr_fullContent r = None \<or> fr_contentPreview r = None"
    by (rule mp)
  then have "fr_contentPreview (formatResult None pageResult) = None"
    and "fr_fullContent (formatResult None timedOutResult) = None"
    using b c by auto
  with a b c show ?thesis by blast
qed

subsection \<open>The error string\<close>

text \<open>
  C10: in every \<open>/api/search\<close> response (its results are the \<open>formatResult\<close> of the
  records of the search), the error string of a result is included if and only if the
  \<open>fetchStatus\<close> of the record is \<open>'error'\<close> and the record carries an error, that is
  an \<open>error\<close> that is set and not the empty string; it is then the error of the record.
  A record whose \<open>fetchStatus\<close> is \<open>'timeout'\<close> never has its error string exposed.
\<close>

theorem error_exposed_iff:
  "(fr_error (formatResult v sr) \<noteq> None \<longleftrightarrow>
      fetchStatus sr = FetchError \<and> (\<exists>e. error sr = Some e \<and> e \<noteq> [])) \<and>
   (fr_error (formatResult v sr) \<noteq> None \<longrightarrow> fr_error (formatResult v sr) = error sr) \<and>
   (fetchStatus sr = FetchTimeout \<longrightarrow> fr_error (formatResult v sr) = None) \<and>
   (api_search handleWebSearch body = Ok200 resp \<longrightarrow>
      (\<exists>args result. validateSearchRequest body = Inr args \<and> handleWebSearch args = Inr result \<and>
         sr_results resp = map (formatResult (arg_maxContentLength args)) (results result)))"
  using api_search_Ok200 [of handleWebSearch body resp]
  by (auto simp: formatResult_error)

theorem error_exposed_iff_witness:
  "api_search exampleWebSearch (JObject [(''query'', JString ''cats'')]) =
     Ok200 \<lparr>sr_success = True, sr_query = ''cats'', sr_total_results = Fin 3,
            sr_search_time_ms = Fin 12, sr_status = None,
            sr_results = map (formatResult None) [pageResult, timedOutResult, failedResult]\<rparr> \<and>
   fetchStatus timedOutResult = FetchTimeout \<and>
   error timedOutResult = Some ''Timeout of 6000ms exceeded'' \<and>
   fr_error (formatResult None timedOutResult) = None \<and>
   fetchStatus failedResult = FetchError \<and>
   fr_error (formatResult None failedResult) = Some ''HTTP 403''"
proof -
  let ?b = "JObject [(''query'', JString ''cats'')]"
  have a: "api_search exampleWebSearch ?b =
     Ok200 \<lparr>sr_success = True, sr_query = ''cats'', sr_total_results = Fin 3,
            sr_search_time_ms = Fin 12, sr_status = None,
            sr_results = map (formatResult None) [pageResult, timedOutResult, failedResult]\<rparr>"
    by code_simp
  have t: "fetchStatus timedOutResult = FetchTimeout"
    "error timedOutResult = Some ''Timeout of 6000ms exceeded''"
    by (simp_all add: timedOutResult_def)
  have f: "fetchStatus failedResult = FetchError" "error failedResult = Some ''HTTP 403''"
    by (simp_all add: failedResult_def)
  from error_exposed_iff [of None timedOutResult] t
  have 1: "fr_error (formatResult None timedOutResult) = None" by blast
  from error_exposed_iff [of None failedResult] f
  have 2: "fr_error (formatResult None failedResult) = Some ''HTTP 403''" by auto
  from a t f 1 2 show ?thesis by blast
qed

subsection \<open>maxContentLength of 0\<close>





end
